theory Spec2Isabelle
  imports Main "HOL-Library.Word"
begin

section \<open>The Marketplace ledger (src/hardhat/contracts/Marketplace.sol)\<close>

text \<open>
  A shallow embedding of the Solidity contract \<^verbatim>\<open>Marketplace\<close>. A \<^verbatim>\<open>uint256\<close> is a
  256-bit word and an \<^verbatim>\<open>address\<close> a 160-bit word. The contract is compiled with
  Solidity 0.8, whose \<^verbatim>\<open>+\<close>, \<^verbatim>\<open>-\<close> and \<^verbatim>\<open>++\<close> revert with \<^verbatim>\<open>Panic(0x11)\<close> instead of
  wrapping, and whose array accesses revert with \<^verbatim>\<open>Panic(0x32)\<close> out of range: both are
  branches of the model. A call that reverts returns \<open>Inl\<close>; the transaction wrapper
  \<open>transact\<close> then keeps the state of before the call, as the EVM does.
\<close>

type_synonym uint256 = "256 word"
type_synonym address = "160 word"

record MarketItem =
  marketItemId :: uint256
  nftContractAddress :: address
  tokenId :: uint256
  creator :: address
  seller :: address
  owner :: address
  price :: uint256
  sold :: bool
  canceled :: bool

text \<open>The value of a mapping slot that was never written, and of a fresh memory struct.\<close>

definition emptyMarketItem :: MarketItem where
  "emptyMarketItem =
     \<lparr>marketItemId = 0, nftContractAddress = 0, tokenId = 0, creator = 0, seller = 0,
      owner = 0, price = 0, sold = False, canceled = False\<rparr>"

datatype event =
    MarketItemCreated uint256 address uint256 address address address uint256 bool bool
  | MarketItemSold uint256 address uint256 address address uint256
  | MarketItemCanceled uint256 address uint256 address

text \<open>
  What a call does outside the contract's storage, in the order of the source: an ether
  transfer \<^verbatim>\<open>to.transfer(amount)\<close>, a call \<^verbatim>\<open>IERC721(c).transferFrom(from, to, tokenId)\<close>,
  an emitted event.
\<close>

datatype interaction =
    EtherTransfer address uint256
  | TokenTransferFrom address address address uint256
  | Emit event

datatype error =
    Revert string
  | Panic nat
  | ExternalCallReverted

text \<open>
  The contracts and accounts the ledger calls are not part of it (\<^verbatim>\<open>NFT.sol\<close> is imported,
  and the collection address is an argument of every call), so what they do is a parameter of
  a call:
  \<^item> what \<^verbatim>\<open>getTokenCreatorById\<close> returns (\<open>None\<close> when the call reverts); the function is
    declared \<^verbatim>\<open>view\<close> (src/config/contracts.ts), so the call is static and changes nothing;
  \<^item> whether \<^verbatim>\<open>transferFrom\<close> is accepted, and how much ether the ledger's balance gains
    while it runs: the call runs the code of an address that the caller chose, which can
    force ether into the ledger (by \<^verbatim>\<open>selfdestruct\<close>) although the ledger has no payable
    fallback;
  \<^item> whether an account accepts an ether transfer (within one call the answer depends on the
    receiver and the amount only); \<^verbatim>\<open>transfer\<close> forwards 2300 gas, too little for the
    receiver to change any balance.
  All mutating functions are \<^verbatim>\<open>nonReentrant\<close>, so such a call cannot change the ledger's
  storage through them; the guard's flag is clear between calls and is not modelled.
\<close>

record env =
  getTokenCreatorById :: "address \<Rightarrow> uint256 \<Rightarrow> address option"
  transferFrom :: "address \<Rightarrow> address \<Rightarrow> address \<Rightarrow> uint256 \<Rightarrow> bool"
  etherForced :: "address \<Rightarrow> address \<Rightarrow> address \<Rightarrow> uint256 \<Rightarrow> nat"
  acceptsEther :: "address \<Rightarrow> uint256 \<Rightarrow> bool"

text \<open>
  The contract's state: its storage variables (the immutable \<^verbatim>\<open>owner\<close> is \<open>marketOwner\<close>,
  since \<open>owner\<close> is the field of \<open>MarketItem\<close>), its own address and ether balance, and
  the interactions of the calls that succeeded.
\<close>

record Marketplace =
  marketItemIdCounter :: uint256
  tokensSoldCounter :: uint256
  tokensCanceledCounter :: uint256
  marketOwner :: address
  listingFee :: uint256
  marketItemIdToMarketItem :: "uint256 \<Rightarrow> MarketItem"
  thisAddress :: address
  balance :: nat
  interactions :: "interaction list"

text \<open>
  \<^verbatim>\<open>constructor\<close>: the deployer is the fee beneficiary, and the listing fee is
  \<^verbatim>\<open>0.045 ether\<close>, in wei. The constructor is not payable: the balance starts at 0.
\<close>

definition constructor :: "address \<Rightarrow> address \<Rightarrow> Marketplace" where
  "constructor msg_sender this =
     \<lparr>marketItemIdCounter = 0, tokensSoldCounter = 0, tokensCanceledCounter = 0,
      marketOwner = msg_sender, listingFee = 45000000000000000,
      marketItemIdToMarketItem = (\<lambda>_. emptyMarketItem),
      thisAddress = this, balance = 0, interactions = []\<rparr>"

definition getListingFee :: "Marketplace \<Rightarrow> uint256" where
  "getListingFee s = listingFee s"

subsection \<open>Checked arithmetic and the primitives of a call\<close>

definition increment :: "uint256 \<Rightarrow> error + uint256" where
  "increment x = (if x = - 1 then Inl (Panic 17) else Inr (x + 1))"

definition checked_sub :: "uint256 \<Rightarrow> uint256 \<Rightarrow> error + uint256" where
  "checked_sub a b = (if b \<le> a then Inr (a - b) else Inl (Panic 17))"

text \<open>A payable function's \<^verbatim>\<open>msg.value\<close> is in the balance when its body starts.\<close>

definition receive_value :: "uint256 \<Rightarrow> Marketplace \<Rightarrow> Marketplace" where
  "receive_value v s = s\<lparr>balance := balance s + unat v\<rparr>"

text \<open>\<^verbatim>\<open>to.transfer(amount)\<close> reverts when the balance is too small or the receiver refuses.\<close>

definition transfer :: "env \<Rightarrow> address \<Rightarrow> uint256 \<Rightarrow> Marketplace \<Rightarrow> error + Marketplace" where
  "transfer e to amount s =
     (if balance s < unat amount \<or> \<not> acceptsEther e to amount then Inl ExternalCallReverted
      else Inr (s\<lparr>balance := balance s - unat amount,
                interactions := interactions s @ [EtherTransfer to amount]\<rparr>))"

text \<open>
  \<^verbatim>\<open>IERC721(c).transferFrom(from, to, tokenId)\<close> reverts when the collection rejects it;
  when it returns, the balance holds whatever ether the callee forced into the ledger.
\<close>

definition erc721_transferFrom ::
  "env \<Rightarrow> address \<Rightarrow> address \<Rightarrow> address \<Rightarrow> uint256 \<Rightarrow> Marketplace \<Rightarrow> error + Marketplace" where
  "erc721_transferFrom e c from to tid s =
     (if transferFrom e c from to tid
      then Inr (s\<lparr>balance := balance s + etherForced e c from to tid,
                interactions := interactions s @ [TokenTransferFrom c from to tid]\<rparr>)
      else Inl ExternalCallReverted)"

definition emit :: "event \<Rightarrow> Marketplace \<Rightarrow> Marketplace" where
  "emit ev s = s\<lparr>interactions := interactions s @ [Emit ev]\<rparr>"

subsection \<open>The mutating functions\<close>

definition createMarketItem ::
  "Marketplace \<Rightarrow> address \<Rightarrow> uint256 \<Rightarrow> env \<Rightarrow> address \<Rightarrow> uint256 \<Rightarrow> uint256
     \<Rightarrow> error + (Marketplace \<times> uint256)" where
  "createMarketItem s0 msg_sender msg_value e nftContract tid prc =
     (let s = receive_value msg_value s0 in
      if \<not> 0 < prc then Inl (Revert ''Price must be at least 1 wei'')
      else if msg_value \<noteq> listingFee s then Inl (Revert ''Price must be equal to listing price'')
      else case increment (marketItemIdCounter s) of
        Inl err \<Rightarrow> Inl err
      | Inr newId \<Rightarrow>
         (let s1 = s\<lparr>marketItemIdCounter := newId\<rparr> in
          case getTokenCreatorById e nftContract tid of
            None \<Rightarrow> Inl ExternalCallReverted
          | Some cr \<Rightarrow>
             (let s2 = s1\<lparr>marketItemIdToMarketItem := (marketItemIdToMarketItem s1)
                        (newId := \<lparr>marketItemId = newId, nftContractAddress = nftContract,
                                   tokenId = tid, creator = cr, seller = msg_sender, owner = 0,
                                   price = prc, sold = False, canceled = False\<rparr>)\<rparr> in
              case erc721_transferFrom e nftContract msg_sender (thisAddress s2) tid s2 of
                Inl err \<Rightarrow> Inl err
              | Inr s3 \<Rightarrow>
                  Inr (emit (MarketItemCreated newId nftContract tid cr msg_sender 0 prc
                               False False) s3,
                       newId))))"

definition cancelMarketItem ::
  "Marketplace \<Rightarrow> address \<Rightarrow> env \<Rightarrow> address \<Rightarrow> uint256 \<Rightarrow> error + Marketplace" where
  "cancelMarketItem s msg_sender e nftContract itemId =
     (let tid = tokenId (marketItemIdToMarketItem s itemId) in
      if \<not> 0 < tid then Inl (Revert ''Market item has to exist'')
      else if seller (marketItemIdToMarketItem s itemId) \<noteq> msg_sender
        then Inl (Revert ''You are not the seller'')
      else case erc721_transferFrom e nftContract (thisAddress s) msg_sender tid s of
        Inl err \<Rightarrow> Inl err
      | Inr s1 \<Rightarrow>
         (let s2 = s1\<lparr>marketItemIdToMarketItem := (marketItemIdToMarketItem s1)
                    (itemId := (marketItemIdToMarketItem s1 itemId)
                                 \<lparr>owner := msg_sender, canceled := True\<rparr>)\<rparr> in
          case increment (tokensCanceledCounter s2) of
            Inl err \<Rightarrow> Inl err
          | Inr c \<Rightarrow>
              Inr (emit (MarketItemCanceled itemId nftContract tid msg_sender)
                     (s2\<lparr>tokensCanceledCounter := c\<rparr>))))"

definition createMarketSale ::
  "Marketplace \<Rightarrow> address \<Rightarrow> uint256 \<Rightarrow> env \<Rightarrow> address \<Rightarrow> uint256 \<Rightarrow> error + Marketplace" where
  "createMarketSale s0 msg_sender msg_value e nftContract itemId =
     (let s = receive_value msg_value s0;
          prc = price (marketItemIdToMarketItem s itemId);
          tid = tokenId (marketItemIdToMarketItem s itemId) in
      if msg_value \<noteq> prc
        then Inl (Revert ''Please submit the asking price in order to continue'')
      else
        (let s1 = s\<lparr>marketItemIdToMarketItem := (marketItemIdToMarketItem s)
                    (itemId := (marketItemIdToMarketItem s itemId)
                                 \<lparr>owner := msg_sender, sold := True\<rparr>)\<rparr> in
         case transfer e (seller (marketItemIdToMarketItem s1 itemId)) msg_value s1 of
           Inl err \<Rightarrow> Inl err
         | Inr s2 \<Rightarrow>
            (case erc721_transferFrom e nftContract (thisAddress s2) msg_sender tid s2 of
               Inl err \<Rightarrow> Inl err
             | Inr s3 \<Rightarrow>
                (case increment (tokensSoldCounter s3) of
                   Inl err \<Rightarrow> Inl err
                 | Inr c \<Rightarrow>
                    (let s4 = s3\<lparr>tokensSoldCounter := c\<rparr> in
                     case transfer e (marketOwner s4) (listingFee s4) s4 of
                       Inl err \<Rightarrow> Inl err
                     | Inr s5 \<Rightarrow>
                         Inr (emit (MarketItemSold itemId nftContract tid
                                      (seller (marketItemIdToMarketItem s5 itemId))
                                      msg_sender prc) s5))))))"

subsection \<open>Loop counters\<close>

text \<open>
  The loops of the queries count in \<^verbatim>\<open>uint256\<close>. Below its bound a counter is not the
  largest word, so \<^verbatim>\<open>i++\<close> and \<^verbatim>\<open>i + 1\<close> do not overflow there, and \<^verbatim>\<open>i--\<close> above 0 does
  not underflow.
\<close>

lemma unat_increment: "(x::'a::len word) \<noteq> - 1 \<Longrightarrow> unat (x + 1) = Suc (unat x)"
  by (simp add: add.commute add_eq_0_iff unatSuc)

lemma less_not_max: "(i::'a::len word) < n \<Longrightarrow> i \<noteq> - 1"
  by (metis word_order.extremum_strict)

lemma unat_succ: "(i::'a::len word) < n \<Longrightarrow> unat (i + 1) = Suc (unat i)"
  by (simp add: unat_increment less_not_max)

lemma unat_pred: "0 < (i::'a::len word) \<Longrightarrow> unat (i - 1) = unat i - 1"
  by (simp add: unat_minus_one word_neq_0_conv)

subsection \<open>The queries\<close>

function getLatestMarketItemByTokenId_loop ::
  "(uint256 \<Rightarrow> MarketItem) \<Rightarrow> uint256 \<Rightarrow> uint256 \<Rightarrow> MarketItem \<times> bool" where
  "getLatestMarketItemByTokenId_loop m tid i =
     (if 0 < i then
        (let item = m i in
         if tokenId item \<noteq> tid then getLatestMarketItemByTokenId_loop m tid (i - 1)
         else (item, True))
      else (emptyMarketItem, False))"
  by pat_completeness auto
termination
  by (relation "measure (\<lambda>(m, tid, i). unat i)") (auto simp: unat_pred unat_gt_0)

definition getLatestMarketItemByTokenId :: "Marketplace \<Rightarrow> uint256 \<Rightarrow> MarketItem \<times> bool" where
  "getLatestMarketItemByTokenId s tid =
     (let itemsCount = marketItemIdCounter s in
      getLatestMarketItemByTokenId_loop (marketItemIdToMarketItem s) tid itemsCount)"

function fetchAvailableMarketItems_loop ::
  "(uint256 \<Rightarrow> MarketItem) \<Rightarrow> uint256 \<Rightarrow> uint256 \<Rightarrow> uint256 \<Rightarrow> MarketItem list
     \<Rightarrow> error + MarketItem list" where
  "fetchAvailableMarketItems_loop m itemsCount i currentIndex marketItems =
     (if i < itemsCount then
        (let item = m (i + 1) in
         if owner item \<noteq> 0
           then fetchAvailableMarketItems_loop m itemsCount (i + 1) currentIndex marketItems
         else if \<not> unat currentIndex < length marketItems then Inl (Panic 50)
         else if currentIndex = - 1 then Inl (Panic 17)
         else fetchAvailableMarketItems_loop m itemsCount (i + 1) (currentIndex + 1)
                (marketItems[unat currentIndex := item]))
      else Inr marketItems)"
  by pat_completeness auto
termination
  by (relation "measure (\<lambda>(m, itemsCount, i, currentIndex, marketItems). unat itemsCount - unat i)")
     (auto simp: unat_succ word_less_nat_alt)

definition fetchAvailableMarketItems :: "Marketplace \<Rightarrow> error + MarketItem list" where
  "fetchAvailableMarketItems s =
     (let itemsCount = marketItemIdCounter s;
          soldItemsCount = tokensSoldCounter s;
          canceledItemsCount = tokensCanceledCounter s in
      case checked_sub itemsCount soldItemsCount of
        Inl err \<Rightarrow> Inl err
      | Inr d \<Rightarrow>
         (case checked_sub d canceledItemsCount of
            Inl err \<Rightarrow> Inl err
          | Inr availableItemsCount \<Rightarrow>
              fetchAvailableMarketItems_loop (marketItemIdToMarketItem s) itemsCount 0 0
                (replicate (unat availableItemsCount) emptyMarketItem)))"

text \<open>
  \<^verbatim>\<open>compareStrings\<close> compares the \<^verbatim>\<open>keccak256\<close> hashes of the two strings' bytes. The hash
  function is a parameter of the model.
\<close>

definition compareStrings :: "(string \<Rightarrow> 'h) \<Rightarrow> string \<Rightarrow> string \<Rightarrow> bool" where
  "compareStrings keccak256 a b = (keccak256 a = keccak256 b)"

text \<open>The message of both \<^verbatim>\<open>require\<close>s on the property string; \<open>CHR 0x27\<close> is the quote.\<close>

definition parameter_message :: string where
  "parameter_message =
     ''Parameter must be '' @ [CHR 0x27] @ ''seller'' @ [CHR 0x27] @ '' or '' @ [CHR 0x27]
       @ ''owner'' @ [CHR 0x27]"

definition getMarketItemAddressByProperty ::
  "(string \<Rightarrow> 'h) \<Rightarrow> MarketItem \<Rightarrow> string \<Rightarrow> error + address" where
  "getMarketItemAddressByProperty keccak256 item property =
     (if \<not> (compareStrings keccak256 property ''seller'' \<or> compareStrings keccak256 property ''owner'')
        then Inl (Revert parameter_message)
      else Inr (if compareStrings keccak256 property ''seller'' then seller item else owner item))"

function fetchMarketItemsByAddressProperty_count ::
  "(string \<Rightarrow> 'h) \<Rightarrow> (uint256 \<Rightarrow> MarketItem) \<Rightarrow> string \<Rightarrow> address \<Rightarrow> uint256 \<Rightarrow> uint256
     \<Rightarrow> uint256 \<Rightarrow> error + uint256" where
  "fetchMarketItemsByAddressProperty_count keccak256 m addressProperty msg_sender totalItemsCount
       i itemCount =
     (if i < totalItemsCount then
        (case getMarketItemAddressByProperty keccak256 (m (i + 1)) addressProperty of
           Inl err \<Rightarrow> Inl err
         | Inr addressPropertyValue \<Rightarrow>
             if addressPropertyValue \<noteq> msg_sender
               then fetchMarketItemsByAddressProperty_count keccak256 m addressProperty msg_sender
                      totalItemsCount (i + 1) itemCount
             else if itemCount = - 1 then Inl (Panic 17)
             else fetchMarketItemsByAddressProperty_count keccak256 m addressProperty msg_sender
                    totalItemsCount (i + 1) (itemCount + 1))
      else Inr itemCount)"
  by pat_completeness auto
termination
  by (relation "measure (\<lambda>(k, m, p, a, totalItemsCount, i, c). unat totalItemsCount - unat i)")
     (auto simp: unat_succ word_less_nat_alt)

function fetchMarketItemsByAddressProperty_fill ::
  "(string \<Rightarrow> 'h) \<Rightarrow> (uint256 \<Rightarrow> MarketItem) \<Rightarrow> string \<Rightarrow> address \<Rightarrow> uint256 \<Rightarrow> uint256
     \<Rightarrow> uint256 \<Rightarrow> MarketItem list \<Rightarrow> error + MarketItem list" where
  "fetchMarketItemsByAddressProperty_fill keccak256 m addressProperty msg_sender totalItemsCount
       i currentIndex items =
     (if i < totalItemsCount then
        (case getMarketItemAddressByProperty keccak256 (m (i + 1)) addressProperty of
           Inl err \<Rightarrow> Inl err
         | Inr addressPropertyValue \<Rightarrow>
             if addressPropertyValue \<noteq> msg_sender
               then fetchMarketItemsByAddressProperty_fill keccak256 m addressProperty msg_sender
                      totalItemsCount (i + 1) currentIndex items
             else if \<not> unat currentIndex < length items then Inl (Panic 50)
             else if currentIndex = - 1 then Inl (Panic 17)
             else fetchMarketItemsByAddressProperty_fill keccak256 m addressProperty msg_sender
                    totalItemsCount (i + 1) (currentIndex + 1)
                    (items[unat currentIndex := m (i + 1)]))
      else Inr items)"
  by pat_completeness auto
termination
  by (relation "measure (\<lambda>(k, m, p, a, totalItemsCount, i, c, xs). unat totalItemsCount - unat i)")
     (auto simp: unat_succ word_less_nat_alt)

definition fetchMarketItemsByAddressProperty ::
  "(string \<Rightarrow> 'h) \<Rightarrow> Marketplace \<Rightarrow> address \<Rightarrow> string \<Rightarrow> error + MarketItem list" where
  "fetchMarketItemsByAddressProperty keccak256 s msg_sender addressProperty =
     (if \<not> (compareStrings keccak256 addressProperty ''seller''
             \<or> compareStrings keccak256 addressProperty ''owner'')
        then Inl (Revert parameter_message)
      else
        (let totalItemsCount = marketItemIdCounter s in
         case fetchMarketItemsByAddressProperty_count keccak256 (marketItemIdToMarketItem s)
                addressProperty msg_sender totalItemsCount 0 0 of
           Inl err \<Rightarrow> Inl err
         | Inr itemCount \<Rightarrow>
             fetchMarketItemsByAddressProperty_fill keccak256 (marketItemIdToMarketItem s)
               addressProperty msg_sender totalItemsCount 0 0
               (replicate (unat itemCount) emptyMarketItem)))"

definition fetchSellingMarketItems ::
  "(string \<Rightarrow> 'h) \<Rightarrow> Marketplace \<Rightarrow> address \<Rightarrow> error + MarketItem list" where
  "fetchSellingMarketItems keccak256 s msg_sender =
     fetchMarketItemsByAddressProperty keccak256 s msg_sender ''seller''"

definition fetchOwnedMarketItems ::
  "(string \<Rightarrow> 'h) \<Rightarrow> Marketplace \<Rightarrow> address \<Rightarrow> error + MarketItem list" where
  "fetchOwnedMarketItems keccak256 s msg_sender =
     fetchMarketItemsByAddressProperty keccak256 s msg_sender ''owner''"

text \<open>The loops are unfolded one iteration at a time.\<close>

declare getLatestMarketItemByTokenId_loop.simps [simp del]
declare fetchAvailableMarketItems_loop.simps [simp del]
declare fetchMarketItemsByAddressProperty_count.simps [simp del]
declare fetchMarketItemsByAddressProperty_fill.simps [simp del]

subsection \<open>Transactions and sequences of them\<close>

datatype operation =
    CreateMarketItem address uint256 env address uint256 uint256
  | CancelMarketItem address env address uint256
  | CreateMarketSale address uint256 env address uint256
  | ForceEther nat

text \<open>
  The arguments are those of the functions above: the sender (and the value, for the two
  payable functions), the answers of the outside world during the call, then the arguments
  of the Solidity function. \<open>ForceEther\<close> is no function of the contract: it is ether that
  reaches the contract's balance between two calls without running its code.
\<close>

fun execute :: "Marketplace \<Rightarrow> operation \<Rightarrow> error + Marketplace" where
  "execute s (CreateMarketItem a v e c t p) =
     (case createMarketItem s a v e c t p of Inl err \<Rightarrow> Inl err | Inr (s', r) \<Rightarrow> Inr s')"
| "execute s (CancelMarketItem a e c i) = cancelMarketItem s a e c i"
| "execute s (CreateMarketSale a v e c i) = createMarketSale s a v e c i"
| "execute s (ForceEther k) = Inr (s\<lparr>balance := balance s + k\<rparr>)"

text \<open>A reverted transaction leaves the state as it was.\<close>

definition transact :: "Marketplace \<Rightarrow> operation \<Rightarrow> Marketplace" where
  "transact s op = (case execute s op of Inl err \<Rightarrow> s | Inr s' \<Rightarrow> s')"

definition run :: "Marketplace \<Rightarrow> operation list \<Rightarrow> Marketplace" where
  "run s ops = foldl transact s ops"

text \<open>
  The ids allocated so far, in ascending order: \<open>1, \<dots>, _marketItemIdCounter\<close>; the stored
  items are the records under these ids.
\<close>

definition market_ids :: "uint256 \<Rightarrow> uint256 list" where
  "market_ids n = map of_nat [1..<Suc (unat n)]"

definition stored_items :: "Marketplace \<Rightarrow> MarketItem list" where
  "stored_items s = map (marketItemIdToMarketItem s) (market_ids (marketItemIdCounter s))"

text \<open>
  A valid operation: the sender of a transaction is never the zero address, and a sale or a
  cancellation names an allocated item that was neither sold nor canceled before.
\<close>

definition listed :: "Marketplace \<Rightarrow> uint256 \<Rightarrow> bool" where
  "listed s i \<longleftrightarrow>
     0 < i \<and> i \<le> marketItemIdCounter s
     \<and> \<not> sold (marketItemIdToMarketItem s i) \<and> \<not> canceled (marketItemIdToMarketItem s i)"

fun valid_operation :: "Marketplace \<Rightarrow> operation \<Rightarrow> bool" where
  "valid_operation s (CreateMarketItem a v e c t p) = (a \<noteq> 0)"
| "valid_operation s (CancelMarketItem a e c i) = (a \<noteq> 0 \<and> listed s i)"
| "valid_operation s (CreateMarketSale a v e c i) = (a \<noteq> 0 \<and> listed s i)"
| "valid_operation s (ForceEther k) = True"

fun valid_sequence :: "Marketplace \<Rightarrow> operation list \<Rightarrow> bool" where
  "valid_sequence s [] = True"
| "valid_sequence s (op # ops) = (valid_operation s op \<and> valid_sequence (transact s op) ops)"

subsection \<open>Invariants\<close>

text \<open>
  In every state the contract can be in, the record under an allocated id carries this id,
  and a slot outside the allocated ids has none of the fields that only
  \<^verbatim>\<open>createMarketItem\<close> writes.
\<close>

definition well_formed :: "Marketplace \<Rightarrow> bool" where
  "well_formed s \<longleftrightarrow>
     (\<forall>i. if 0 < i \<and> i \<le> marketItemIdCounter s
          then marketItemId (marketItemIdToMarketItem s i) = i
          else marketItemId (marketItemIdToMarketItem s i) = 0
             \<and> tokenId (marketItemIdToMarketItem s i) = 0
             \<and> seller (marketItemIdToMarketItem s i) = 0
             \<and> price (marketItemIdToMarketItem s i) = 0)"

text \<open>
  After valid operations only, moreover, the slots outside the allocated ids are untouched,
  a stored item has the zero owner exactly when it is neither sold nor canceled, and the
  three counters account for every stored item.
\<close>

definition available_items :: "Marketplace \<Rightarrow> MarketItem list" where
  "available_items s = filter (\<lambda>item. owner item = 0) (stored_items s)"

definition accounted :: "Marketplace \<Rightarrow> bool" where
  "accounted s \<longleftrightarrow>
     (\<forall>i. \<not> (0 < i \<and> i \<le> marketItemIdCounter s)
          \<longrightarrow> marketItemIdToMarketItem s i = emptyMarketItem)
     \<and> (\<forall>i. 0 < i \<and> i \<le> marketItemIdCounter s
          \<longrightarrow> (owner (marketItemIdToMarketItem s i) = 0
               \<longleftrightarrow> \<not> sold (marketItemIdToMarketItem s i)
                   \<and> \<not> canceled (marketItemIdToMarketItem s i)))
     \<and> unat (tokensSoldCounter s) + unat (tokensCanceledCounter s) + length (available_items s)
         = unat (marketItemIdCounter s)"

text \<open>
  What may happen to a stored record between two states: the fields written at its creation
  stay, and a flag that is set stays set.
\<close>

definition kept_as :: "MarketItem \<Rightarrow> MarketItem \<Rightarrow> bool" where
  "kept_as x y \<longleftrightarrow>
     marketItemId y = marketItemId x \<and> nftContractAddress y = nftContractAddress x
     \<and> tokenId y = tokenId x \<and> creator y = creator x \<and> seller y = seller x
     \<and> price y = price x \<and> (sold x \<longrightarrow> sold y) \<and> (canceled x \<longrightarrow> canceled y)"

definition grows_to :: "Marketplace \<Rightarrow> Marketplace \<Rightarrow> bool" where
  "grows_to s s' \<longleftrightarrow>
     marketItemIdCounter s \<le> marketItemIdCounter s'
     \<and> (\<forall>i. 0 < i \<and> i \<le> marketItemIdCounter s
            \<longrightarrow> kept_as (marketItemIdToMarketItem s i) (marketItemIdToMarketItem s' i))"

subsection \<open>Example worlds\<close>

text \<open>
  The outside world in which every external call is accepted and \<^verbatim>\<open>getTokenCreatorById\<close>
  answers \<open>cr\<close>, and the one in which the collection rejects every transfer; neither
  forces ether into the ledger.
\<close>

definition accepting :: "address \<Rightarrow> env" where
  "accepting cr =
     \<lparr>getTokenCreatorById = (\<lambda>c t. Some cr), transferFrom = (\<lambda>c from to t. True),
      etherForced = (\<lambda>c from to t. 0), acceptsEther = (\<lambda>a v. True)\<rparr>"

definition rejecting_transfers :: "address \<Rightarrow> env" where
  "rejecting_transfers cr =
     \<lparr>getTokenCreatorById = (\<lambda>c t. Some cr), transferFrom = (\<lambda>c from to t. False),
      etherForced = (\<lambda>c from to t. 0), acceptsEther = (\<lambda>a v. True)\<rparr>"

text \<open>
  The outside world of a collection whose \<^verbatim>\<open>transferFrom\<close> accepts and, while it runs,
  forces one listing fee of ether into the ledger.
\<close>

definition feeding :: "address \<Rightarrow> env" where
  "feeding cr =
     \<lparr>getTokenCreatorById = (\<lambda>c t. Some cr), transferFrom = (\<lambda>c from to t. True),
      etherForced = (\<lambda>c from to t. 45000000000000000), acceptsEther = (\<lambda>a v. True)\<rparr>"

text \<open>
  A history of the ledger deployed by account 1 at address 2: accounts 3 and 4 list the tokens
  9 and 10 of collection 7 for 100 and 200 wei, account 6 buys the first item, account 4
  cancels the second, and account 3 lists token 11 for 300 wei.
\<close>

definition fee :: uint256 where
  "fee = 45000000000000000"

definition example_history :: "operation list" where
  "example_history =
     [CreateMarketItem 3 fee (accepting 5) 7 9 100,
      CreateMarketItem 4 fee (accepting 5) 7 10 200,
      CreateMarketSale 6 100 (accepting 5) 7 1,
      CancelMarketItem 4 (accepting 5) 7 2,
      CreateMarketItem 3 fee (accepting 5) 7 11 300]"

text \<open>
  A history in which token 9 is listed, canceled and listed again: the items 1 and 3 are both
  for token 9.
\<close>

definition relisting_history :: "operation list" where
  "relisting_history =
     [CreateMarketItem 3 fee (accepting 5) 7 9 100,
      CreateMarketItem 4 fee (accepting 5) 7 10 200,
      CancelMarketItem 3 (accepting 5) 7 1,
      CreateMarketItem 3 fee (accepting 5) 7 9 150]"

text \<open>The state after the two first listings of the history.\<close>

definition two_listings :: Marketplace where
  "two_listings = run (constructor 1 2) (take 2 example_history)"

text \<open>
  The state after one listing and its sale, and the state after the two listings and the sale
  of the first.
\<close>

definition sold_out :: Marketplace where
  "sold_out = run (constructor 1 2)
     [CreateMarketItem 3 fee (accepting 5) 7 9 100, CreateMarketSale 6 100 (accepting 5) 7 1]"

definition one_sold :: Marketplace where
  "one_sold = run (constructor 1 2) (take 3 example_history)"

text \<open>The equations that evaluate a call on concrete arguments.\<close>

lemmas call_defs =
  createMarketItem_def createMarketSale_def cancelMarketItem_def Let_def receive_value_def
  increment_def transfer_def erc721_transferFrom_def emit_def

lemmas example_defs =
  fee_def constructor_def accepting_def rejecting_transfers_def feeding_def emptyMarketItem_def
  transact_def run_def listed_def

section \<open>What a successful call does\<close>

text \<open>
  Each mutating function succeeds under exactly the conditions below, and then yields exactly
  the state below. The proofs unfold the function and split on every branch of it.
\<close>

lemma createMarketItem_Inr:
  "createMarketItem s a v e c t p = Inr (s', r) \<longleftrightarrow>
     0 < p \<and> v = listingFee s \<and> marketItemIdCounter s \<noteq> - 1
     \<and> (\<exists>cr. getTokenCreatorById e c t = Some cr \<and> transferFrom e c a (thisAddress s) t
          \<and> r = marketItemIdCounter s + 1
          \<and> s' = s\<lparr>marketItemIdCounter := r,
                   marketItemIdToMarketItem := (marketItemIdToMarketItem s)
                     (r := \<lparr>marketItemId = r, nftContractAddress = c, tokenId = t, creator = cr,
                            seller = a, owner = 0, price = p, sold = False, canceled = False\<rparr>),
                   balance := balance s + unat v + etherForced e c a (thisAddress s) t,
                   interactions := interactions s @
                     [TokenTransferFrom c a (thisAddress s) t,
                      Emit (MarketItemCreated r c t cr a 0 p False False)]\<rparr>)"
  by (auto simp: createMarketItem_def Let_def receive_value_def increment_def
        erc721_transferFrom_def emit_def split: option.splits sum.splits)

lemma cancelMarketItem_Inr:
  "cancelMarketItem s a e c i = Inr s' \<longleftrightarrow>
     0 < tokenId (marketItemIdToMarketItem s i) \<and> seller (marketItemIdToMarketItem s i) = a
     \<and> transferFrom e c (thisAddress s) a (tokenId (marketItemIdToMarketItem s i))
     \<and> tokensCanceledCounter s \<noteq> - 1
     \<and> s' = s\<lparr>tokensCanceledCounter := tokensCanceledCounter s + 1,
              marketItemIdToMarketItem := (marketItemIdToMarketItem s)
                (i := (marketItemIdToMarketItem s i)\<lparr>owner := a, canceled := True\<rparr>),
              balance := balance s
                + etherForced e c (thisAddress s) a (tokenId (marketItemIdToMarketItem s i)),
              interactions := interactions s @
                [TokenTransferFrom c (thisAddress s) a (tokenId (marketItemIdToMarketItem s i)),
                 Emit (MarketItemCanceled i c (tokenId (marketItemIdToMarketItem s i)) a)]\<rparr>"
  by (auto simp: cancelMarketItem_def Let_def increment_def
        erc721_transferFrom_def emit_def split: option.splits sum.splits)

lemma createMarketSale_Inr:
  "createMarketSale s a v e c i = Inr s' \<longleftrightarrow>
     v = price (marketItemIdToMarketItem s i)
     \<and> acceptsEther e (seller (marketItemIdToMarketItem s i)) v
     \<and> transferFrom e c (thisAddress s) a (tokenId (marketItemIdToMarketItem s i))
     \<and> tokensSoldCounter s \<noteq> - 1
     \<and> unat (listingFee s)
         \<le> balance s + etherForced e c (thisAddress s) a (tokenId (marketItemIdToMarketItem s i))
     \<and> acceptsEther e (marketOwner s) (listingFee s)
     \<and> s' = s\<lparr>tokensSoldCounter := tokensSoldCounter s + 1,
              marketItemIdToMarketItem := (marketItemIdToMarketItem s)
                (i := (marketItemIdToMarketItem s i)\<lparr>owner := a, sold := True\<rparr>),
              balance := balance s
                + etherForced e c (thisAddress s) a (tokenId (marketItemIdToMarketItem s i))
                - unat (listingFee s),
              interactions := interactions s @
                [EtherTransfer (seller (marketItemIdToMarketItem s i)) v,
                 TokenTransferFrom c (thisAddress s) a (tokenId (marketItemIdToMarketItem s i)),
                 EtherTransfer (marketOwner s) (listingFee s),
                 Emit (MarketItemSold i c (tokenId (marketItemIdToMarketItem s i))
                         (seller (marketItemIdToMarketItem s i)) a v)]\<rparr>"
  by (auto simp: createMarketSale_def Let_def increment_def receive_value_def transfer_def
        erc721_transferFrom_def emit_def split: option.splits sum.splits)

text \<open>
  A sale or a cancellation reverts exactly when one of the conditions of its success fails.
\<close>

lemma createMarketSale_Inl:
  "(\<exists>err. createMarketSale s a v e c i = Inl err) \<longleftrightarrow>
     v \<noteq> price (marketItemIdToMarketItem s i)
     \<or> \<not> acceptsEther e (seller (marketItemIdToMarketItem s i)) v
     \<or> \<not> transferFrom e c (thisAddress s) a (tokenId (marketItemIdToMarketItem s i))
     \<or> tokensSoldCounter s = - 1
     \<or> balance s + etherForced e c (thisAddress s) a (tokenId (marketItemIdToMarketItem s i))
          < unat (listingFee s)
     \<or> \<not> acceptsEther e (marketOwner s) (listingFee s)"
proof -
  have "(\<exists>err. createMarketSale s a v e c i = Inl err) \<longleftrightarrow>
          \<not> (\<exists>s'. createMarketSale s a v e c i = Inr s')"
    by (cases "createMarketSale s a v e c i") simp_all
  then show ?thesis
    unfolding createMarketSale_Inr by auto
qed

lemma cancelMarketItem_Inl:
  "(\<exists>err. cancelMarketItem s a e c i = Inl err) \<longleftrightarrow>
     tokenId (marketItemIdToMarketItem s i) = 0
     \<or> seller (marketItemIdToMarketItem s i) \<noteq> a
     \<or> \<not> transferFrom e c (thisAddress s) a (tokenId (marketItemIdToMarketItem s i))
     \<or> tokensCanceledCounter s = - 1"
proof -
  have "(\<exists>err. cancelMarketItem s a e c i = Inl err) \<longleftrightarrow>
          \<not> (\<exists>s'. cancelMarketItem s a e c i = Inr s')"
    by (cases "cancelMarketItem s a e c i") simp_all
  then show ?thesis
    unfolding cancelMarketItem_Inr by (auto simp: word_greater_zero_iff)
qed

section \<open>The allocated ids\<close>

lemma market_ids_succ: "n \<noteq> - 1 \<Longrightarrow> market_ids (n + 1) = market_ids n @ [n + 1]"
  by (simp add: market_ids_def unat_increment)

lemma set_market_ids: "set (market_ids n) = {i. 0 < i \<and> i \<le> n}"
proof (intro set_eqI iffI)
  fix i assume "i \<in> set (market_ids n)"
  then obtain k where k: "i = of_nat k" "1 \<le> k" "k \<le> unat n"
    by (auto simp: market_ids_def)
  then have "unat i = k"
    by (simp add: le_unat_uoi)
  with k have "0 < unat i" "unat i \<le> unat n"
    by simp_all
  then show "i \<in> {i. 0 < i \<and> i \<le> n}"
    by (simp add: word_le_nat_alt unat_gt_0 word_greater_zero_iff)
next
  fix i assume "i \<in> {i. 0 < i \<and> i \<le> n}"
  then have "0 < i" "i \<le> n"
    by simp_all
  then have "1 \<le> unat i" "unat i \<le> unat n"
    by (auto simp: word_le_nat_alt word_less_nat_alt)
  then have "unat i \<in> set [1..<Suc (unat n)]"
    by auto
  then have "of_nat (unat i) \<in> set (market_ids n)"
    unfolding market_ids_def set_map by (rule imageI)
  then show "i \<in> set (market_ids n)"
    by simp
qed

lemma distinct_market_ids: "distinct (market_ids n)"
proof -
  have "inj_on (of_nat :: nat \<Rightarrow> uint256) (set [1..<Suc (unat n)])"
    by (rule inj_on_inverseI [where g = unat]) (auto simp: le_unat_uoi [of _ n])
  then show ?thesis
    by (simp add: market_ids_def distinct_map)
qed

lemma word_le_succ: "(n::'a::len word) \<noteq> - 1 \<Longrightarrow> i \<le> n + 1 \<longleftrightarrow> i \<le> n \<or> i = n + 1"
proof -
  assume "n \<noteq> - 1"
  then have "unat (n + 1) = Suc (unat n)"
    by (rule unat_increment)
  then show ?thesis
    by (auto simp: word_le_nat_alt word_unat_eq_iff)
qed

lemma word_succ_not_le: "(n::'a::len word) \<noteq> - 1 \<Longrightarrow> \<not> n + 1 \<le> n"
  by (simp add: word_le_nat_alt unat_increment)

lemma word_succ_pos: "(n::'a::len word) \<noteq> - 1 \<Longrightarrow> 0 < n + 1"
  by (simp add: add.commute add_eq_0_iff word_greater_zero_iff)

section \<open>Transactions\<close>

text \<open>
  A transaction either reverts and changes nothing, or is one of the three successful calls.
\<close>

lemma transact_cases:
  obtains (reverted) "transact s op = s"
  | (created) a v e c t p cr where "op = CreateMarketItem a v e c t p"
      "0 < p" "v = listingFee s" "marketItemIdCounter s \<noteq> - 1"
      "getTokenCreatorById e c t = Some cr" "transferFrom e c a (thisAddress s) t"
      "transact s op = s\<lparr>marketItemIdCounter := marketItemIdCounter s + 1,
         marketItemIdToMarketItem := (marketItemIdToMarketItem s)
           (marketItemIdCounter s + 1 :=
              \<lparr>marketItemId = marketItemIdCounter s + 1, nftContractAddress = c, tokenId = t,
               creator = cr, seller = a, owner = 0, price = p, sold = False, canceled = False\<rparr>),
         balance := balance s + unat v + etherForced e c a (thisAddress s) t,
         interactions := interactions s @
           [TokenTransferFrom c a (thisAddress s) t,
            Emit (MarketItemCreated (marketItemIdCounter s + 1) c t cr a 0 p False False)]\<rparr>"
  | (canceled) a e c i where "op = CancelMarketItem a e c i"
      "0 < tokenId (marketItemIdToMarketItem s i)" "seller (marketItemIdToMarketItem s i) = a"
      "transferFrom e c (thisAddress s) a (tokenId (marketItemIdToMarketItem s i))"
      "tokensCanceledCounter s \<noteq> - 1"
      "transact s op = s\<lparr>tokensCanceledCounter := tokensCanceledCounter s + 1,
         marketItemIdToMarketItem := (marketItemIdToMarketItem s)
           (i := (marketItemIdToMarketItem s i)\<lparr>owner := a, canceled := True\<rparr>),
         balance := balance s
           + etherForced e c (thisAddress s) a (tokenId (marketItemIdToMarketItem s i)),
         interactions := interactions s @
           [TokenTransferFrom c (thisAddress s) a (tokenId (marketItemIdToMarketItem s i)),
            Emit (MarketItemCanceled i c (tokenId (marketItemIdToMarketItem s i)) a)]\<rparr>"
  | (sold) a v e c i where "op = CreateMarketSale a v e c i"
      "v = price (marketItemIdToMarketItem s i)"
      "acceptsEther e (seller (marketItemIdToMarketItem s i)) v"
      "transferFrom e c (thisAddress s) a (tokenId (marketItemIdToMarketItem s i))"
      "tokensSoldCounter s \<noteq> - 1"
      "unat (listingFee s)
         \<le> balance s + etherForced e c (thisAddress s) a (tokenId (marketItemIdToMarketItem s i))"
      "acceptsEther e (marketOwner s) (listingFee s)"
      "transact s op = s\<lparr>tokensSoldCounter := tokensSoldCounter s + 1,
         marketItemIdToMarketItem := (marketItemIdToMarketItem s)
           (i := (marketItemIdToMarketItem s i)\<lparr>owner := a, sold := True\<rparr>),
         balance := balance s
                + etherForced e c (thisAddress s) a (tokenId (marketItemIdToMarketItem s i))
                - unat (listingFee s),
         interactions := interactions s @
           [EtherTransfer (seller (marketItemIdToMarketItem s i)) v,
            TokenTransferFrom c (thisAddress s) a (tokenId (marketItemIdToMarketItem s i)),
            EtherTransfer (marketOwner s) (listingFee s),
            Emit (MarketItemSold i c (tokenId (marketItemIdToMarketItem s i))
                    (seller (marketItemIdToMarketItem s i)) a v)]\<rparr>"
  | (forced) k where "op = ForceEther k" "transact s op = s\<lparr>balance := balance s + k\<rparr>"
proof (cases "execute s op")
  case (Inl err)
  then have "transact s op = s"
    by (simp add: transact_def)
  then show ?thesis
    by (rule reverted)
next
  case (Inr s')
  then have eq: "transact s op = s'"
    by (simp add: transact_def)
  show ?thesis
  proof (cases op)
    case (CreateMarketItem a v e c t p)
    with Inr obtain r where "createMarketItem s a v e c t p = Inr (s', r)"
      by (auto split: sum.splits)
    then show ?thesis
      using CreateMarketItem eq by (auto simp: createMarketItem_Inr intro: created)
  next
    case (CancelMarketItem a e c i)
    with Inr have "cancelMarketItem s a e c i = Inr s'"
      by simp
    then show ?thesis
      using CancelMarketItem eq by (auto simp: cancelMarketItem_Inr intro: canceled)
  next
    case (CreateMarketSale a v e c i)
    with Inr have "createMarketSale s a v e c i = Inr s'"
      by simp
    then show ?thesis
      using CreateMarketSale eq by (auto simp: createMarketSale_Inr intro: sold)
  next
    case (ForceEther k)
    with Inr eq show ?thesis
      by (auto intro: forced)
  qed
qed

lemma well_formed_transact: "well_formed s \<Longrightarrow> well_formed (transact s op)"
proof (cases rule: transact_cases [of s op])
  case reverted
  assume "well_formed s"
  with reverted show ?thesis by simp
next
  case (created a v e c t p cr)
  assume "well_formed s"
  then show ?thesis
    unfolding created(7) well_formed_def using created(4)
    by (auto simp: word_le_succ word_succ_not_le word_succ_pos)
next
  case (canceled a e c i)
  assume "well_formed s"
  then show ?thesis
    unfolding canceled(6) well_formed_def by auto
next
  case (sold a v e c i)
  assume "well_formed s"
  then show ?thesis
    unfolding sold(8) well_formed_def by auto
next
  case (forced k)
  assume "well_formed s"
  then show ?thesis
    unfolding forced(2) well_formed_def by auto
qed

lemma well_formed_constructor: "well_formed (constructor d t)"
  by (simp add: well_formed_def constructor_def emptyMarketItem_def)

lemma well_formed_run: "well_formed s \<Longrightarrow> well_formed (run s ops)"
  unfolding run_def by (induction ops arbitrary: s) (simp_all add: well_formed_transact)

section \<open>The bookkeeping of valid operations\<close>

lemma stored_items_update_outside:
  "\<not> (0 < k \<and> k \<le> marketItemIdCounter s) \<Longrightarrow>
   map ((marketItemIdToMarketItem s)(k := x)) (market_ids (marketItemIdCounter s)) = stored_items s"
  by (simp add: stored_items_def set_market_ids)

lemma filter_update_outside:
  "k \<notin> set xs \<Longrightarrow> filter (\<lambda>i. P ((f(k := v)) i)) xs = filter (\<lambda>i. P (f i)) xs"
  by (rule filter_cong) auto

lemma filter_update_count:
  "distinct xs \<Longrightarrow> k \<in> set xs \<Longrightarrow> P (f k) \<Longrightarrow> \<not> P v \<Longrightarrow>
   Suc (length (filter (\<lambda>i. P ((f(k := v)) i)) xs)) = length (filter (\<lambda>i. P (f i)) xs)"
proof (induction xs)
  case Nil
  then show ?case by simp
next
  case (Cons x xs)
  show ?case
  proof (cases "x = k")
    case True
    with Cons.prems have "k \<notin> set xs"
      by simp
    then have "filter (\<lambda>i. P ((f(k := v)) i)) xs = filter (\<lambda>i. P (f i)) xs"
      by (rule filter_update_outside)
    with True Cons.prems show ?thesis
      by simp
  next
    case False
    with Cons show ?thesis
      by simp
  qed
qed

lemma available_after_create:
  assumes "marketItemIdCounter s \<noteq> - 1" "owner x = 0"
  shows "available_items (s\<lparr>marketItemIdCounter := marketItemIdCounter s + 1,
           marketItemIdToMarketItem := (marketItemIdToMarketItem s)(marketItemIdCounter s + 1 := x),
           balance := b, interactions := l\<rparr>) = available_items s @ [x]"
  using assms
  by (simp add: available_items_def stored_items_def market_ids_succ set_market_ids
        word_succ_not_le)

lemma available_after_terminal:
  assumes "0 < i" "i \<le> marketItemIdCounter s" "owner (marketItemIdToMarketItem s i) = 0"
    "owner x \<noteq> 0"
  shows "Suc (length (filter (\<lambda>item. owner item = 0)
            (map ((marketItemIdToMarketItem s)(i := x)) (market_ids (marketItemIdCounter s)))))
         = length (available_items s)"
  unfolding available_items_def stored_items_def length_filter_map o_def
  using assms by (intro filter_update_count) (simp_all add: distinct_market_ids set_market_ids)

lemma accounted_transact:
  assumes "accounted s" "valid_operation s op"
  shows "accounted (transact s op)"
proof (cases rule: transact_cases [of s op])
  case reverted
  with assms show ?thesis by simp
next
  case (created a v e c t p cr)
  let ?x = "\<lparr>marketItemId = marketItemIdCounter s + 1, nftContractAddress = c, tokenId = t,
               creator = cr, seller = a, owner = 0, price = p, sold = False, canceled = False\<rparr>"
  have "available_items (transact s op) = available_items s @ [?x]"
    unfolding created(7) using created(4) by (intro available_after_create) simp_all
  then show ?thesis
    using assms(1) created(4) unfolding accounted_def
    by (auto simp: created(7) word_le_succ word_succ_not_le word_succ_pos unat_increment)
next
  case (canceled a e c i)
  with assms(2) have v: "a \<noteq> 0" "listed s i"
    by simp_all
  then have i: "0 < i" "i \<le> marketItemIdCounter s" "owner (marketItemIdToMarketItem s i) = 0"
    using assms(1) by (auto simp: listed_def accounted_def)
  have "Suc (length (available_items (transact s op))) = length (available_items s)"
    unfolding canceled(6)
    using v(1) available_after_terminal
      [OF i, of "(marketItemIdToMarketItem s i)\<lparr>owner := a, canceled := True\<rparr>"]
    by (simp add: available_items_def stored_items_def)
  then show ?thesis
    using assms(1) canceled(5) v(1) i unfolding accounted_def
    by (auto simp: canceled(6) unat_increment)
next
  case (sold a v e c i)
  with assms(2) have v: "a \<noteq> 0" "listed s i"
    by simp_all
  then have i: "0 < i" "i \<le> marketItemIdCounter s" "owner (marketItemIdToMarketItem s i) = 0"
    using assms(1) by (auto simp: listed_def accounted_def)
  have "Suc (length (available_items (transact s op))) = length (available_items s)"
    unfolding sold(8)
    using v(1) available_after_terminal
      [OF i, of "(marketItemIdToMarketItem s i)\<lparr>owner := a, sold := True\<rparr>"]
    by (simp add: available_items_def stored_items_def)
  then show ?thesis
    using assms(1) sold(5) v(1) i unfolding accounted_def
    by (auto simp: sold(8) unat_increment)
next
  case (forced k)
  with assms(1) show ?thesis
    by (simp add: accounted_def available_items_def stored_items_def)
qed

lemma accounted_constructor: "accounted (constructor d t)"
  by (simp add: accounted_def constructor_def available_items_def stored_items_def market_ids_def)

lemma accounted_run:
  "accounted s \<Longrightarrow> valid_sequence s ops \<Longrightarrow> accounted (run s ops)"
  unfolding run_def by (induction ops arbitrary: s) (simp_all add: accounted_transact)

section \<open>The scan of the available items\<close>

text \<open>
  The ids still to be visited when the loop variable is \<open>i\<close> are
  \<open>drop (unat i) (market_ids n)\<close>. If the array has room for the items the loop still
  finds, the loop writes them, in order, from \<open>currentIndex\<close> on and leaves the rest of the
  array alone.
\<close>

lemma drop_market_ids:
  "drop k (market_ids n) = map of_nat [Suc k..<Suc (unat n)]"
  by (simp add: market_ids_def drop_map)

lemma drop_market_ids_step:
  assumes "i < n"
  shows "drop (unat i) (market_ids n) = (i + 1) # drop (unat (i + 1)) (market_ids n)"
proof -
  have "unat i < unat n"
    using assms by (simp add: word_less_nat_alt)
  then have "[Suc (unat i)..<Suc (unat n)] = Suc (unat i) # [Suc (Suc (unat i))..<Suc (unat n)]"
    by (simp add: upt_conv_Cons)
  moreover have "(of_nat (Suc (unat i)) :: uint256) = i + 1"
    by simp
  ultimately show ?thesis
    using assms by (simp add: drop_market_ids unat_succ)
qed

lemma drop_market_ids_end: "\<not> i < n \<Longrightarrow> drop (unat i) (market_ids n) = []"
  by (simp add: market_ids_def word_less_nat_alt)

lemma fetchAvailableMarketItems_loop_fills:
  assumes "unat cur + length (filter (\<lambda>item. owner item = 0) (map m (drop (unat i) (market_ids n))))
             \<le> length arr"
    and "length arr \<le> unat (k :: uint256)"
  shows "fetchAvailableMarketItems_loop m n i cur arr =
           Inr (take (unat cur) arr
                @ filter (\<lambda>item. owner item = 0) (map m (drop (unat i) (market_ids n)))
                @ drop (unat cur + length (filter (\<lambda>item. owner item = 0)
                                             (map m (drop (unat i) (market_ids n))))) arr)"
  using assms
proof (induction m n i cur arr rule: fetchAvailableMarketItems_loop.induct)
  case (1 m n i cur arr)
  show ?case
  proof (cases "i < n")
    case False
    then show ?thesis
      by (subst fetchAvailableMarketItems_loop.simps) (simp add: drop_market_ids_end)
  next
    case in_range: True
    note step = drop_market_ids_step [OF in_range]
    show ?thesis
    proof (cases "owner (m (i + 1)) = 0")
      case False
      with in_range "1.prems" "1.IH"(1) [of "m (i + 1)"] show ?thesis
        by (subst fetchAvailableMarketItems_loop.simps) (simp add: step)
    next
      case True
      with "1.prems" have room: "unat cur < length arr"
        by (simp add: step)
      with "1.prems"(2) have "cur < k"
        by (simp add: word_less_nat_alt)
      then have not_max: "cur \<noteq> - 1"
        by (rule less_not_max)
      then have next_index: "unat (cur + 1) = Suc (unat cur)"
        by (rule unat_increment)
      have "fetchAvailableMarketItems_loop m n i cur arr =
              fetchAvailableMarketItems_loop m n (i + 1) (cur + 1) (arr[unat cur := m (i + 1)])"
        using in_range True room not_max
        by (subst fetchAvailableMarketItems_loop.simps) simp
      also have "\<dots> = Inr (take (unat (cur + 1)) (arr[unat cur := m (i + 1)])
                @ filter (\<lambda>item. owner item = 0) (map m (drop (unat (i + 1)) (market_ids n)))
                @ drop (unat (cur + 1) + length (filter (\<lambda>item. owner item = 0)
                      (map m (drop (unat (i + 1)) (market_ids n))))) (arr[unat cur := m (i + 1)]))"
        using in_range True room not_max "1.prems"
        by (intro "1.IH"(2) [of "m (i + 1)"]) (simp_all add: step next_index)
      also have "\<dots> = Inr (take (unat cur) arr
                @ filter (\<lambda>item. owner item = 0) (map m (drop (unat i) (market_ids n)))
                @ drop (unat cur + length (filter (\<lambda>item. owner item = 0)
                                             (map m (drop (unat i) (market_ids n))))) arr)"
        using True room by (simp add: step next_index take_Suc_conv_app_nth)
      finally show ?thesis .
    qed
  qed
qed

section \<open>The ids of the stored items\<close>

lemma stored_items_iff:
  "item \<in> set (stored_items s) \<longleftrightarrow>
     (\<exists>i. 0 < i \<and> i \<le> marketItemIdCounter s \<and> item = marketItemIdToMarketItem s i)"
  by (auto simp: stored_items_def set_market_ids)

lemma stored_ids:
  assumes "well_formed s"
  shows "map marketItemId (stored_items s) = market_ids (marketItemIdCounter s)"
proof -
  have "\<forall>i \<in> set (market_ids (marketItemIdCounter s)).
          marketItemId (marketItemIdToMarketItem s i) = i"
    using assms by (auto simp: well_formed_def set_market_ids)
  then show ?thesis
    unfolding stored_items_def map_map o_def by (intro map_idI) simp
qed

lemma sorted_market_ids: "sorted_wrt (<) (market_ids n)"
proof -
  have "sorted_wrt (\<lambda>x y. (of_nat x :: uint256) < of_nat y) [1..<Suc (unat n)]"
  proof (rule sorted_wrt_mono_rel [of _ "(<)"])
    fix x y assume "x \<in> set [1..<Suc (unat n)]" "y \<in> set [1..<Suc (unat n)]" "x < y"
    then have "x \<le> unat n" "y \<le> unat n" "x < y"
      by auto
    then show "(of_nat x :: uint256) < of_nat y"
      by (simp add: word_less_nat_alt le_unat_uoi [of _ n])
  next
    show "sorted_wrt (<) [1..<Suc (unat n)]"
      by (rule sorted_wrt_upt)
  qed
  then show ?thesis
    by (simp add: market_ids_def sorted_wrt_map)
qed

lemma sorted_filter_ids:
  assumes "well_formed s"
  shows "sorted_wrt (<) (map marketItemId (filter P (stored_items s)))"
proof -
  have "sorted_wrt (\<lambda>x y. marketItemId x < marketItemId y) (stored_items s)"
    using sorted_market_ids [of "marketItemIdCounter s"] stored_ids [OF assms, symmetric]
    by (simp add: sorted_wrt_map)
  then have "sorted_wrt (\<lambda>x y. marketItemId x < marketItemId y) (filter P (stored_items s))"
    by (rule sorted_wrt_filter)
  then show ?thesis
    by (simp add: sorted_wrt_map)
qed

section \<open>The scan for the latest item of a token\<close>

text \<open>
  The loop runs from \<open>i\<close> down to 1: either no slot in this range is for the token, or it
  returns the record of the highest slot in the range that is.
\<close>

lemma word_le_pred_iff:
  assumes "0 < (i::'a::len word)"
  shows "j \<le> i \<longleftrightarrow> j = i \<or> j \<le> i - 1"
proof -
  have "unat (i - 1) = unat i - 1" "0 < unat i"
    using assms by (simp_all add: unat_pred word_less_nat_alt)
  then show ?thesis
    unfolding word_le_nat_alt word_unat_eq_iff by linarith
qed

lemma getLatest_loop_result:
  "(getLatestMarketItemByTokenId_loop m tid i = (emptyMarketItem, False)
      \<and> (\<forall>j. 0 < j \<and> j \<le> i \<longrightarrow> tokenId (m j) \<noteq> tid))
   \<or> (\<exists>k. 0 < k \<and> k \<le> i \<and> tokenId (m k) = tid
          \<and> (\<forall>j. k < j \<and> j \<le> i \<longrightarrow> tokenId (m j) \<noteq> tid)
          \<and> getLatestMarketItemByTokenId_loop m tid i = (m k, True))"
proof (induction m tid i rule: getLatestMarketItemByTokenId_loop.induct)
  case (1 m tid i)
  show ?case
  proof (cases "0 < i")
    case False
    then have "i = 0"
      by (simp add: word_greater_zero_iff)
    then show ?thesis
      by (subst getLatestMarketItemByTokenId_loop.simps) simp
  next
    case pos: True
    note split = word_le_pred_iff [OF pos]
    show ?thesis
    proof (cases "tokenId (m i) = tid")
      case True
      with pos have "getLatestMarketItemByTokenId_loop m tid i = (m i, True)"
        by (subst getLatestMarketItemByTokenId_loop.simps) simp
      with pos True show ?thesis
        by (intro disjI2 exI [of _ i]) auto
    next
      case False
      with pos have unfold: "getLatestMarketItemByTokenId_loop m tid i =
          getLatestMarketItemByTokenId_loop m tid (i - 1)"
        by (subst getLatestMarketItemByTokenId_loop.simps) simp
      from "1.IH" [OF pos refl False] show ?thesis
      proof (elim disjE conjE exE)
        assume "getLatestMarketItemByTokenId_loop m tid (i - 1) = (emptyMarketItem, False)"
          "\<forall>j. 0 < j \<and> j \<le> i - 1 \<longrightarrow> tokenId (m j) \<noteq> tid"
        with False show ?thesis
          unfolding unfold by (intro disjI1) (auto simp: split)
      next
        fix k assume k: "0 < k" "k \<le> i - 1" "tokenId (m k) = tid"
          "\<forall>j. k < j \<and> j \<le> i - 1 \<longrightarrow> tokenId (m j) \<noteq> tid"
          "getLatestMarketItemByTokenId_loop m tid (i - 1) = (m k, True)"
        with False show ?thesis
          unfolding unfold by (intro disjI2 exI [of _ k]) (auto simp: split)
      qed
    qed
  qed
qed

section \<open>What every transaction keeps\<close>

lemma kept_as_refl: "kept_as x x"
  by (simp add: kept_as_def)

lemma kept_as_trans: "kept_as x y \<Longrightarrow> kept_as y z \<Longrightarrow> kept_as x z"
  by (simp add: kept_as_def)

lemma grows_to_refl: "grows_to s s"
  by (simp add: grows_to_def kept_as_refl)

lemma grows_to_trans:
  assumes "grows_to s s'" "grows_to s' s''"
  shows "grows_to s s''"
  unfolding grows_to_def
proof (intro conjI allI impI)
  show "marketItemIdCounter s \<le> marketItemIdCounter s''"
    using assms by (auto simp: grows_to_def)
next
  fix i assume i: "0 < i \<and> i \<le> marketItemIdCounter s"
  then have "0 < i \<and> i \<le> marketItemIdCounter s'"
    using assms(1) by (auto simp: grows_to_def)
  with i assms show "kept_as (marketItemIdToMarketItem s i) (marketItemIdToMarketItem s'' i)"
    unfolding grows_to_def by (blast intro: kept_as_trans)
qed

lemma grows_to_transact: "grows_to s (transact s op)"
proof (cases rule: transact_cases [of s op])
  case reverted
  then show ?thesis
    by (simp add: grows_to_refl)
next
  case (created a v e c t p cr)
  then show ?thesis
    by (auto simp: grows_to_def kept_as_def word_le_succ word_succ_not_le)
next
  case (canceled a e c i)
  then show ?thesis
    by (auto simp: grows_to_def kept_as_def)
next
  case (sold a v e c i)
  then show ?thesis
    by (auto simp: grows_to_def kept_as_def)
next
  case (forced k)
  then show ?thesis
    by (auto simp: grows_to_def kept_as_def)
qed

lemma grows_to_run: "grows_to s (run s ops)"
proof (induction ops arbitrary: s)
  case Nil
  show ?case
    by (simp add: run_def grows_to_refl)
next
  case (Cons op ops)
  have "grows_to s (transact s op)"
    by (rule grows_to_transact)
  moreover have "grows_to (transact s op) (run (transact s op) ops)"
    by (rule Cons.IH)
  ultimately show ?case
    unfolding run_def foldl_Cons by (rule grows_to_trans)
qed

section \<open>The two scans by seller or owner\<close>

text \<open>
  For a property string that passes the check, the first loop counts the stored items whose
  seller (or owner) is the caller, without overflow, and the second writes them, in order,
  into an array that has room for them.
\<close>

lemma getMarketItemAddressByProperty_ok:
  assumes "compareStrings H p ''seller'' \<or> compareStrings H p ''owner''"
  shows "getMarketItemAddressByProperty H item p =
           Inr (if compareStrings H p ''seller'' then seller item else owner item)"
  using assms by (simp add: getMarketItemAddressByProperty_def)

lemma count_loop_counts:
  assumes "compareStrings H p ''seller'' \<or> compareStrings H p ''owner''"
    and "unat c \<le> unat i"
  shows "\<exists>c'. fetchMarketItemsByAddressProperty_count H m p a n i c = Inr c'
           \<and> unat c' = unat c + length (filter
                (\<lambda>item. (if compareStrings H p ''seller'' then seller item else owner item) = a)
                (map m (drop (unat i) (market_ids n))))"
  using assms
proof (induction H m p a n i c rule: fetchMarketItemsByAddressProperty_count.induct)
  case (1 H m p a n i c)
  let ?sel = "\<lambda>item. if compareStrings H p ''seller'' then seller item else owner item"
  have get: "getMarketItemAddressByProperty H (m (i + 1)) p = Inr (?sel (m (i + 1)))"
    using "1.prems"(1) by (rule getMarketItemAddressByProperty_ok)
  show ?case
  proof (cases "i < n")
    case False
    then show ?thesis
      by (subst fetchMarketItemsByAddressProperty_count.simps) (simp add: drop_market_ids_end)
  next
    case in_range: True
    note step = drop_market_ids_step [OF in_range]
    have next_i: "unat (i + 1) = Suc (unat i)"
      using in_range by (rule unat_succ)
    show ?thesis
    proof (cases "?sel (m (i + 1)) = a")
      case False
      have "fetchMarketItemsByAddressProperty_count H m p a n i c =
              fetchMarketItemsByAddressProperty_count H m p a n (i + 1) c"
        using in_range False get by (subst fetchMarketItemsByAddressProperty_count.simps) simp
      moreover have "\<exists>c'. fetchMarketItemsByAddressProperty_count H m p a n (i + 1) c = Inr c'
           \<and> unat c' = unat c + length (filter (\<lambda>item. ?sel item = a)
                (map m (drop (unat (i + 1)) (market_ids n))))"
        using in_range False get "1.prems" next_i by (intro "1.IH"(1)) simp_all
      ultimately show ?thesis
        using False by (simp add: step)
    next
      case True
      have "c < n"
        using "1.prems"(2) in_range by (simp add: word_less_nat_alt)
      then have not_max: "c \<noteq> - 1"
        by (rule less_not_max)
      then have next_c: "unat (c + 1) = Suc (unat c)"
        by (rule unat_increment)
      have "fetchMarketItemsByAddressProperty_count H m p a n i c =
              fetchMarketItemsByAddressProperty_count H m p a n (i + 1) (c + 1)"
        using in_range True get not_max
        by (subst fetchMarketItemsByAddressProperty_count.simps) simp
      moreover have "\<exists>c'. fetchMarketItemsByAddressProperty_count H m p a n (i + 1) (c + 1) = Inr c'
           \<and> unat c' = unat (c + 1) + length (filter (\<lambda>item. ?sel item = a)
                (map m (drop (unat (i + 1)) (market_ids n))))"
        using in_range True get not_max "1.prems" next_i next_c by (intro "1.IH"(2)) simp_all
      ultimately show ?thesis
        using True by (simp add: step next_c)
    qed
  qed
qed

lemma fill_loop_fills:
  assumes "compareStrings H p ''seller'' \<or> compareStrings H p ''owner''"
    and "unat cur + length (filter
            (\<lambda>item. (if compareStrings H p ''seller'' then seller item else owner item) = a)
            (map m (drop (unat i) (market_ids n)))) \<le> length arr"
    and "length arr \<le> unat (k :: uint256)"
  shows "fetchMarketItemsByAddressProperty_fill H m p a n i cur arr =
           Inr (take (unat cur) arr
                @ filter (\<lambda>item. (if compareStrings H p ''seller'' then seller item
                                   else owner item) = a)
                    (map m (drop (unat i) (market_ids n)))
                @ drop (unat cur + length (filter
                      (\<lambda>item. (if compareStrings H p ''seller'' then seller item
                                else owner item) = a)
                      (map m (drop (unat i) (market_ids n))))) arr)"
  using assms
proof (induction H m p a n i cur arr rule: fetchMarketItemsByAddressProperty_fill.induct)
  case (1 H m p a n i cur arr)
  let ?sel = "\<lambda>item. if compareStrings H p ''seller'' then seller item else owner item"
  have get: "getMarketItemAddressByProperty H (m (i + 1)) p = Inr (?sel (m (i + 1)))"
    using "1.prems"(1) by (rule getMarketItemAddressByProperty_ok)
  show ?case
  proof (cases "i < n")
    case False
    then show ?thesis
      by (subst fetchMarketItemsByAddressProperty_fill.simps) (simp add: drop_market_ids_end)
  next
    case in_range: True
    note step = drop_market_ids_step [OF in_range]
    show ?thesis
    proof (cases "?sel (m (i + 1)) = a")
      case False
      have "fetchMarketItemsByAddressProperty_fill H m p a n i cur arr =
              fetchMarketItemsByAddressProperty_fill H m p a n (i + 1) cur arr"
        using in_range False get by (subst fetchMarketItemsByAddressProperty_fill.simps) simp
      also have "\<dots> = Inr (take (unat cur) arr
                @ filter (\<lambda>item. ?sel item = a) (map m (drop (unat (i + 1)) (market_ids n)))
                @ drop (unat cur + length (filter (\<lambda>item. ?sel item = a)
                      (map m (drop (unat (i + 1)) (market_ids n))))) arr)"
        using in_range False get "1.prems" by (intro "1.IH"(1)) (simp_all add: step)
      finally show ?thesis
        using False by (simp add: step)
    next
      case True
      with "1.prems" have room: "unat cur < length arr"
        by (simp add: step)
      with "1.prems"(3) have "cur < k"
        by (simp add: word_less_nat_alt)
      then have not_max: "cur \<noteq> - 1"
        by (rule less_not_max)
      then have next_index: "unat (cur + 1) = Suc (unat cur)"
        by (rule unat_increment)
      have "fetchMarketItemsByAddressProperty_fill H m p a n i cur arr =
              fetchMarketItemsByAddressProperty_fill H m p a n (i + 1) (cur + 1)
                (arr[unat cur := m (i + 1)])"
        using in_range True get room not_max
        by (subst fetchMarketItemsByAddressProperty_fill.simps) simp
      also have "\<dots> = Inr (take (unat (cur + 1)) (arr[unat cur := m (i + 1)])
                @ filter (\<lambda>item. ?sel item = a) (map m (drop (unat (i + 1)) (market_ids n)))
                @ drop (unat (cur + 1) + length (filter (\<lambda>item. ?sel item = a)
                      (map m (drop (unat (i + 1)) (market_ids n))))) (arr[unat cur := m (i + 1)]))"
        using in_range True get room not_max "1.prems"
        by (intro "1.IH"(2)) (simp_all add: step next_index)
      also have "\<dots> = Inr (take (unat cur) arr
                @ filter (\<lambda>item. ?sel item = a) (map m (drop (unat i) (market_ids n)))
                @ drop (unat cur + length (filter (\<lambda>item. ?sel item = a)
                                             (map m (drop (unat i) (market_ids n))))) arr)"
        using True room by (simp add: step next_index take_Suc_conv_app_nth)
      finally show ?thesis .
    qed
  qed
qed

section \<open>The example states\<close>

lemma two_listings_eq:
  "two_listings =
     \<lparr>marketItemIdCounter = 2, tokensSoldCounter = 0, tokensCanceledCounter = 0,
      marketOwner = 1, listingFee = 45000000000000000,
      marketItemIdToMarketItem = (\<lambda>_. emptyMarketItem)
        (1 := \<lparr>marketItemId = 1, nftContractAddress = 7, tokenId = 9, creator = 5, seller = 3,
                owner = 0, price = 100, sold = False, canceled = False\<rparr>,
         2 := \<lparr>marketItemId = 2, nftContractAddress = 7, tokenId = 10, creator = 5, seller = 4,
                owner = 0, price = 200, sold = False, canceled = False\<rparr>),
      thisAddress = 2, balance = 90000000000000000,
      interactions =
        [TokenTransferFrom 7 3 2 9, Emit (MarketItemCreated 1 7 9 5 3 0 100 False False),
         TokenTransferFrom 7 4 2 10, Emit (MarketItemCreated 2 7 10 5 4 0 200 False False)]\<rparr>"
  by (simp add: two_listings_def example_history_def fee_def constructor_def accepting_def
        transact_def run_def call_defs)

lemma example_items:
  "stored_items (run (constructor 1 2) example_history) =
     [\<lparr>marketItemId = 1, nftContractAddress = 7, tokenId = 9, creator = 5, seller = 3,
       owner = 6, price = 100, sold = True, canceled = False\<rparr>,
      \<lparr>marketItemId = 2, nftContractAddress = 7, tokenId = 10, creator = 5, seller = 4,
       owner = 4, price = 200, sold = False, canceled = True\<rparr>,
      \<lparr>marketItemId = 3, nftContractAddress = 7, tokenId = 11, creator = 5, seller = 3,
       owner = 0, price = 300, sold = False, canceled = False\<rparr>]"
  by (simp add: example_history_def example_defs call_defs stored_items_def market_ids_def
        upt_rec)

lemma sold_out_eq:
  "sold_out =
     \<lparr>marketItemIdCounter = 1, tokensSoldCounter = 1, tokensCanceledCounter = 0,
      marketOwner = 1, listingFee = 45000000000000000,
      marketItemIdToMarketItem = (\<lambda>_. emptyMarketItem)
        (1 := \<lparr>marketItemId = 1, nftContractAddress = 7, tokenId = 9, creator = 5, seller = 3,
                owner = 6, price = 100, sold = True, canceled = False\<rparr>),
      thisAddress = 2, balance = 0,
      interactions =
        [TokenTransferFrom 7 3 2 9, Emit (MarketItemCreated 1 7 9 5 3 0 100 False False),
         EtherTransfer 3 100, TokenTransferFrom 7 2 6 9, EtherTransfer 1 45000000000000000,
         Emit (MarketItemSold 1 7 9 3 6 100)]\<rparr>"
  by (simp add: sold_out_def fee_def constructor_def accepting_def transact_def run_def call_defs)

lemma one_sold_eq:
  "one_sold =
     \<lparr>marketItemIdCounter = 2, tokensSoldCounter = 1, tokensCanceledCounter = 0,
      marketOwner = 1, listingFee = 45000000000000000,
      marketItemIdToMarketItem = (\<lambda>_. emptyMarketItem)
        (2 := \<lparr>marketItemId = 2, nftContractAddress = 7, tokenId = 10, creator = 5, seller = 4,
                owner = 0, price = 200, sold = False, canceled = False\<rparr>,
         1 := \<lparr>marketItemId = 1, nftContractAddress = 7, tokenId = 9, creator = 5, seller = 3,
                owner = 6, price = 100, sold = True, canceled = False\<rparr>),
      thisAddress = 2, balance = 45000000000000000,
      interactions =
        [TokenTransferFrom 7 3 2 9, Emit (MarketItemCreated 1 7 9 5 3 0 100 False False),
         TokenTransferFrom 7 4 2 10, Emit (MarketItemCreated 2 7 10 5 4 0 200 False False),
         EtherTransfer 3 100, TokenTransferFrom 7 2 6 9, EtherTransfer 1 45000000000000000,
         Emit (MarketItemSold 1 7 9 3 6 100)]\<rparr>"
  by (simp add: one_sold_def example_history_def fee_def constructor_def accepting_def
        transact_def run_def call_defs)

section \<open>What the scan of the available items can return\<close>

text \<open>
  Whatever the size of the array, an entry of a returned array is an entry of the initial
  array or a visited record with the zero owner.
\<close>

lemma set_drop_market_ids_step:
  "i < n \<Longrightarrow> set (drop (unat (i + 1)) (market_ids n)) \<subseteq> set (drop (unat i) (market_ids n))"
  by (simp add: drop_market_ids_step subset_insertI)

lemma fetchAvailableMarketItems_loop_members:
  assumes "fetchAvailableMarketItems_loop m n i cur arr = Inr xs" "x \<in> set xs"
  shows "x \<in> set arr \<or> (\<exists>j \<in> set (drop (unat i) (market_ids n)). x = m j \<and> owner (m j) = 0)"
  using assms
proof (induction m n i cur arr rule: fetchAvailableMarketItems_loop.induct)
  case (1 m n i cur arr)
  show ?case
  proof (cases "i < n")
    case False
    with "1.prems" show ?thesis
      by (subst (asm) fetchAvailableMarketItems_loop.simps) auto
  next
    case in_range: True
    note step = drop_market_ids_step [OF in_range]
    show ?thesis
    proof (cases "owner (m (i + 1)) = 0")
      case False
      with in_range "1.prems"(1)
      have "fetchAvailableMarketItems_loop m n (i + 1) cur arr = Inr xs"
        by (subst (asm) fetchAvailableMarketItems_loop.simps) simp
      with in_range False "1.prems"(2)
      have "x \<in> set arr
            \<or> (\<exists>j \<in> set (drop (unat (i + 1)) (market_ids n)). x = m j \<and> owner (m j) = 0)"
        by (intro "1.IH"(1) [of "m (i + 1)"]) simp_all
      then show ?thesis
        by (auto simp: step)
    next
      case True
      with in_range "1.prems"(1)
      have room: "unat cur < length arr" and not_max: "cur \<noteq> - 1"
        and rest: "fetchAvailableMarketItems_loop m n (i + 1) (cur + 1)
                     (arr[unat cur := m (i + 1)]) = Inr xs"
        by (subst (asm) fetchAvailableMarketItems_loop.simps, simp split: if_splits)+
      with in_range True "1.prems"(2)
      have "x \<in> set (arr[unat cur := m (i + 1)])
            \<or> (\<exists>j \<in> set (drop (unat (i + 1)) (market_ids n)). x = m j \<and> owner (m j) = 0)"
        by (intro "1.IH"(2) [of "m (i + 1)"]) simp_all
      moreover have "set (arr[unat cur := m (i + 1)]) \<subseteq> insert (m (i + 1)) (set arr)"
        by (rule set_update_subset_insert)
      ultimately show ?thesis
        using True by (auto simp: step)
    qed
  qed
qed

text \<open>An array that is too short for the items the loop finds makes it revert.\<close>

lemma fetchAvailableMarketItems_loop_overflows:
  assumes "length arr < unat cur + length (filter (\<lambda>item. owner item = 0)
                                             (map m (drop (unat i) (market_ids n))))"
    and "unat cur \<le> length arr"
    and "length arr \<le> unat (k :: uint256)"
  shows "fetchAvailableMarketItems_loop m n i cur arr = Inl (Panic 50)"
  using assms
proof (induction m n i cur arr rule: fetchAvailableMarketItems_loop.induct)
  case (1 m n i cur arr)
  show ?case
  proof (cases "i < n")
    case False
    with "1.prems" show ?thesis
      by (simp add: drop_market_ids_end)
  next
    case in_range: True
    note step = drop_market_ids_step [OF in_range]
    show ?thesis
    proof (cases "owner (m (i + 1)) = 0")
      case False
      have "fetchAvailableMarketItems_loop m n i cur arr =
              fetchAvailableMarketItems_loop m n (i + 1) cur arr"
        using in_range False by (subst fetchAvailableMarketItems_loop.simps) simp
      also have "\<dots> = Inl (Panic 50)"
        using in_range False "1.prems" by (intro "1.IH"(1) [of "m (i + 1)"]) (simp_all add: step)
      finally show ?thesis .
    next
      case True
      show ?thesis
      proof (cases "unat cur < length arr")
        case False
        with in_range True show ?thesis
          by (subst fetchAvailableMarketItems_loop.simps) simp
      next
        case room: True
        with "1.prems"(3) have "cur < k"
          by (simp add: word_less_nat_alt)
        then have not_max: "cur \<noteq> - 1"
          by (rule less_not_max)
        then have next_index: "unat (cur + 1) = Suc (unat cur)"
          by (rule unat_increment)
        have "fetchAvailableMarketItems_loop m n i cur arr =
              fetchAvailableMarketItems_loop m n (i + 1) (cur + 1) (arr[unat cur := m (i + 1)])"
          using in_range True room not_max
          by (subst fetchAvailableMarketItems_loop.simps) simp
        also have "\<dots> = Inl (Panic 50)"
          using in_range True room not_max "1.prems"
          by (intro "1.IH"(2) [of "m (i + 1)"]) (simp_all add: step next_index)
        finally show ?thesis .
      qed
    qed
  qed
qed

section \<open>Creating a listing\<close>

text \<open>
  Claim C3. A call of \<^verbatim>\<open>createMarketItem\<close> with a price above 0 and a payment equal to the
  listing fee, for which the collection answers the creator lookup and accepts the token
  transfer, returns the previous item counter plus 1 (the counter being below \<open>2^256 - 1\<close>,
  where the checked increment reverts). And whenever a call returns an id, this id is the
  previous counter plus 1, as a number and not only as a word, the allocated ids are the
  former ones followed by it, and the record stored under it has seller = caller,
  owner = zero address, sold = false, canceled = false, the given price, collection and token
  id, and the creator that the collection answered; no other record and neither of the other
  two counters has changed.
\<close>

theorem createMarketItem_stores:
  "(0 < p \<and> v = listingFee s \<and> getTokenCreatorById e c t = Some cr
      \<and> transferFrom e c a (thisAddress s) t \<and> marketItemIdCounter s \<noteq> - 1
    \<longrightarrow> (\<exists>s'. createMarketItem s a v e c t p = Inr (s', marketItemIdCounter s + 1)))
   \<and> (\<forall>s' r. createMarketItem s a v e c t p = Inr (s', r) \<longrightarrow>
          r = marketItemIdCounter s + 1
          \<and> unat r = unat (marketItemIdCounter s) + 1
          \<and> marketItemIdCounter s' = r
          \<and> market_ids (marketItemIdCounter s') = market_ids (marketItemIdCounter s) @ [r]
          \<and> (\<exists>cr. getTokenCreatorById e c t = Some cr
                \<and> marketItemIdToMarketItem s' r =
                    \<lparr>marketItemId = r, nftContractAddress = c, tokenId = t, creator = cr,
                     seller = a, owner = 0, price = p, sold = False, canceled = False\<rparr>)
          \<and> (\<forall>i. i \<noteq> r \<longrightarrow> marketItemIdToMarketItem s' i = marketItemIdToMarketItem s i)
          \<and> tokensSoldCounter s' = tokensSoldCounter s
          \<and> tokensCanceledCounter s' = tokensCanceledCounter s)"
proof (intro conjI allI impI)
  assume "0 < p \<and> v = listingFee s \<and> getTokenCreatorById e c t = Some cr
      \<and> transferFrom e c a (thisAddress s) t \<and> marketItemIdCounter s \<noteq> - 1"
  then show "\<exists>s'. createMarketItem s a v e c t p = Inr (s', marketItemIdCounter s + 1)"
    unfolding createMarketItem_Inr by blast
next
  fix s' r assume "createMarketItem s a v e c t p = Inr (s', r)"
  then obtain cr where not_max: "marketItemIdCounter s \<noteq> - 1"
    and r: "r = marketItemIdCounter s + 1"
    and cr: "getTokenCreatorById e c t = Some cr"
    and s': "s' = s\<lparr>marketItemIdCounter := r,
                   marketItemIdToMarketItem := (marketItemIdToMarketItem s)
                     (r := \<lparr>marketItemId = r, nftContractAddress = c, tokenId = t, creator = cr,
                            seller = a, owner = 0, price = p, sold = False, canceled = False\<rparr>),
                   balance := balance s + unat v + etherForced e c a (thisAddress s) t,
                   interactions := interactions s @
                     [TokenTransferFrom c a (thisAddress s) t,
                      Emit (MarketItemCreated r c t cr a 0 p False False)]\<rparr>"
    unfolding createMarketItem_Inr by blast
  show "r = marketItemIdCounter s + 1"
    by (rule r)
  show "unat r = unat (marketItemIdCounter s) + 1"
    using not_max by (simp add: r unat_increment)
  show "marketItemIdCounter s' = r"
    by (simp add: s')
  show "market_ids (marketItemIdCounter s') = market_ids (marketItemIdCounter s) @ [r]"
    using not_max by (simp add: s' r market_ids_succ)
  show "\<exists>cr. getTokenCreatorById e c t = Some cr
          \<and> marketItemIdToMarketItem s' r =
              \<lparr>marketItemId = r, nftContractAddress = c, tokenId = t, creator = cr,
               seller = a, owner = 0, price = p, sold = False, canceled = False\<rparr>"
    using cr by (simp add: s')
  show "tokensSoldCounter s' = tokensSoldCounter s"
    by (simp add: s')
  show "tokensCanceledCounter s' = tokensCanceledCounter s"
    by (simp add: s')
  fix i assume "i \<noteq> r"
  then show "marketItemIdToMarketItem s' i = marketItemIdToMarketItem s i"
    by (simp add: s')
qed

text \<open>The first listing after deployment: token 9 of collection 7, listed by 3 for 100 wei.\<close>

theorem createMarketItem_stores_witness:
  "(0 :: uint256) < 100
   \<and> 45000000000000000 = listingFee (constructor 1 2)
   \<and> getTokenCreatorById (accepting 5) 7 9 = Some 5
   \<and> transferFrom (accepting 5) 7 3 (thisAddress (constructor 1 2)) 9
   \<and> marketItemIdCounter (constructor 1 2) \<noteq> - 1
   \<and> (\<exists>s'. createMarketItem (constructor 1 2) 3 45000000000000000 (accepting 5) 7 9 100
               = Inr (s', 1)
          \<and> market_ids (marketItemIdCounter s') = [1]
          \<and> marketItemIdToMarketItem s' 1 =
               \<lparr>marketItemId = 1, nftContractAddress = 7, tokenId = 9, creator = 5, seller = 3,
                owner = 0, price = 100, sold = False, canceled = False\<rparr>)"
proof -
  note create = createMarketItem_stores
    [of 100 45000000000000000 "constructor 1 2" "accepting 5" 7 9 5 3]
  have given: "(0 :: uint256) < 100" "45000000000000000 = listingFee (constructor 1 2)"
    "getTokenCreatorById (accepting 5) 7 9 = Some 5"
    "transferFrom (accepting 5) 7 3 (thisAddress (constructor 1 2)) 9"
    "marketItemIdCounter (constructor 1 2) \<noteq> - 1"
    by (simp_all add: constructor_def accepting_def)
  with create [THEN conjunct1] obtain s' where
    s': "createMarketItem (constructor 1 2) 3 45000000000000000 (accepting 5) 7 9 100
           = Inr (s', marketItemIdCounter (constructor 1 2) + 1)"
    by blast
  from create [THEN conjunct2, rule_format, OF s']
  have "market_ids (marketItemIdCounter s') = [1]"
    "marketItemIdToMarketItem s' 1 =
               \<lparr>marketItemId = 1, nftContractAddress = 7, tokenId = 9, creator = 5, seller = 3,
                owner = 0, price = 100, sold = False, canceled = False\<rparr>"
    by (auto simp: constructor_def accepting_def market_ids_def)
  moreover from s' have
    "createMarketItem (constructor 1 2) 3 45000000000000000 (accepting 5) 7 9 100 = Inr (s', 1)"
    by (simp add: constructor_def)
  ultimately show ?thesis
    using given by blast
qed

text \<open>
  Claim C4. A call of \<^verbatim>\<open>createMarketItem\<close> whose payment differs from the listing fee, or
  whose price is 0, reverts (with the message of the first \<^verbatim>\<open>require\<close> that fails), and the
  transaction leaves the whole state, the item counter included, as it was.
\<close>

theorem createMarketItem_rejects:
  assumes "v \<noteq> listingFee s \<or> p = 0"
  shows "createMarketItem s a v e c t p =
           Inl (Revert (if p = 0 then ''Price must be at least 1 wei''
                        else ''Price must be equal to listing price''))
         \<and> transact s (CreateMarketItem a v e c t p) = s
         \<and> marketItemIdCounter (transact s (CreateMarketItem a v e c t p)) = marketItemIdCounter s"
proof -
  have "createMarketItem s a v e c t p =
           Inl (Revert (if p = 0 then ''Price must be at least 1 wei''
                        else ''Price must be equal to listing price''))"
    using assms by (auto simp: createMarketItem_def Let_def receive_value_def word_greater_zero_iff)
  then show ?thesis
    by (simp add: transact_def)
qed

theorem createMarketItem_rejects_witness:
  "createMarketItem (constructor 1 2) 3 44 (accepting 5) 7 9 100 =
     Inl (Revert ''Price must be equal to listing price'')
   \<and> createMarketItem (constructor 1 2) 3 45000000000000000 (accepting 5) 7 9 0 =
     Inl (Revert ''Price must be at least 1 wei'')
   \<and> transact (constructor 1 2) (CreateMarketItem 3 44 (accepting 5) 7 9 100) = constructor 1 2
   \<and> transact (constructor 1 2) (CreateMarketItem 3 45000000000000000 (accepting 5) 7 9 0)
       = constructor 1 2"
  using createMarketItem_rejects [of 44 "constructor 1 2" 100 3 "accepting 5" 7 9]
    createMarketItem_rejects [of 45000000000000000 "constructor 1 2" 0 3 "accepting 5" 7 9]
  by (simp add: constructor_def)

section \<open>The available items\<close>

text \<open>
  Claim C1. In every state reached from deployment by a sequence of valid operations (every
  sender is not the zero address; a sale or a cancellation names an allocated item that was
  not sold or canceled before; a call that reverts changes nothing),
  \<^verbatim>\<open>fetchAvailableMarketItems\<close> returns exactly the stored items whose owner is the zero
  address, in ascending order of their \<open>marketItemId\<close>, and their number is the item counter
  minus the sold counter minus the canceled counter (neither subtraction underflows).
\<close>

theorem fetchAvailableMarketItems_valid:
  fixes d t :: address and ops :: "operation list"
  defines "s \<equiv> run (constructor d t) ops"
  assumes "valid_sequence (constructor d t) ops"
  shows "fetchAvailableMarketItems s = Inr (filter (\<lambda>item. owner item = 0) (stored_items s))
         \<and> sorted_wrt (<) (map marketItemId (filter (\<lambda>item. owner item = 0) (stored_items s)))
         \<and> unat (tokensSoldCounter s) + unat (tokensCanceledCounter s)
             \<le> unat (marketItemIdCounter s)
         \<and> length (filter (\<lambda>item. owner item = 0) (stored_items s)) =
             unat (marketItemIdCounter s) - unat (tokensSoldCounter s)
               - unat (tokensCanceledCounter s)"
proof -
  let ?s = "s"
  let ?found = "filter (\<lambda>item. owner item = 0) (stored_items ?s)"
  let ?n = "marketItemIdCounter ?s"
  let ?sold = "tokensSoldCounter ?s"
  let ?canceled = "tokensCanceledCounter ?s"
  have "accounted ?s"
    unfolding s_def using assms by (intro accounted_run accounted_constructor)
  then have count: "unat ?sold + unat ?canceled + length ?found = unat ?n"
    by (simp add: accounted_def available_items_def)
  then have le1: "?sold \<le> ?n"
    by (simp add: word_le_nat_alt)
  then have sub1: "unat (?n - ?sold) = unat ?n - unat ?sold"
    by (simp add: unat_sub)
  with count have le2: "?canceled \<le> ?n - ?sold"
    by (simp add: word_le_nat_alt)
  then have sub2: "unat (?n - ?sold - ?canceled) = unat ?n - unat ?sold - unat ?canceled"
    using sub1 by (simp add: unat_sub)
  with count have size: "unat (?n - ?sold - ?canceled) = length ?found"
    by simp
  have "fetchAvailableMarketItems ?s =
          fetchAvailableMarketItems_loop (marketItemIdToMarketItem ?s) ?n 0 0
            (replicate (length ?found) emptyMarketItem)"
    using le1 le2 size by (simp add: fetchAvailableMarketItems_def checked_sub_def)
  also have "\<dots> = Inr ?found"
    using fetchAvailableMarketItems_loop_fills
      [of 0 "marketItemIdToMarketItem ?s" 0 ?n "replicate (length ?found) emptyMarketItem"
          "?n - ?sold - ?canceled"]
    by (simp add: stored_items_def size)
  finally have "fetchAvailableMarketItems ?s = Inr ?found" .
  moreover have "well_formed ?s"
    unfolding s_def by (intro well_formed_run well_formed_constructor)
  then have "sorted_wrt (<) (map marketItemId ?found)"
    by (rule sorted_filter_ids)
  ultimately show ?thesis
    using count by simp
qed

text \<open>
  The example history: of its three items the first is sold and the second canceled, and the
  query returns the third.
\<close>

theorem fetchAvailableMarketItems_valid_witness:
  "valid_sequence (constructor 1 2) example_history
   \<and> fetchAvailableMarketItems (run (constructor 1 2) example_history) =
       Inr [\<lparr>marketItemId = 3, nftContractAddress = 7, tokenId = 11, creator = 5, seller = 3,
             owner = 0, price = 300, sold = False, canceled = False\<rparr>]
   \<and> unat (marketItemIdCounter (run (constructor 1 2) example_history)) = 3
   \<and> unat (tokensSoldCounter (run (constructor 1 2) example_history)) = 1
   \<and> unat (tokensCanceledCounter (run (constructor 1 2) example_history)) = 1"
proof -
  have valid: "valid_sequence (constructor 1 2) example_history"
    by (simp add: example_history_def example_defs call_defs)
  have "stored_items (run (constructor 1 2) example_history) = 
   [\<lparr>marketItemId = 1, nftContractAddress = 7, tokenId = 9, creator = 5, seller = 3,
                owner = 6, price = 100, sold = True, canceled = False\<rparr>,
    \<lparr>marketItemId = 2, nftContractAddress = 7, tokenId = 10, creator = 5, seller = 4,
                owner = 4, price = 200, sold = False, canceled = True\<rparr>,
    \<lparr>marketItemId = 3, nftContractAddress = 7, tokenId = 11, creator = 5, seller = 3,
                owner = 0, price = 300, sold = False, canceled = False\<rparr>]"
    by (simp add: example_history_def example_defs call_defs stored_items_def market_ids_def upt_rec)
  moreover have "unat (marketItemIdCounter (run (constructor 1 2) example_history)) = 3"
    "unat (tokensSoldCounter (run (constructor 1 2) example_history)) = 1"
    "unat (tokensCanceledCounter (run (constructor 1 2) example_history)) = 1"
    by (simp_all add: example_history_def example_defs call_defs)
  ultimately show ?thesis
    using valid fetchAvailableMarketItems_valid [OF valid] by simp
qed

section \<open>Selling an item\<close>

text \<open>
  Claim C5. A call of \<^verbatim>\<open>createMarketSale\<close> that succeeds was paid the stored price of the
  item; it sets the item's owner to the buyer and its sold flag, leaving every other field and
  every other item as it was; the sold counter is one more than before; and its ether
  transfers are exactly two, the price to the stored seller and the listing fee to the fee
  beneficiary, around the token transfer to the buyer, so that the contract's balance ends
  one listing fee below where it was before the call, counted with the ether that the
  collection's call forced in.
\<close>

theorem createMarketSale_effects:
  assumes "createMarketSale s a v e c i = Inr s'"
  shows "v = price (marketItemIdToMarketItem s i)
         \<and> marketItemIdToMarketItem s' =
             (marketItemIdToMarketItem s)
               (i := (marketItemIdToMarketItem s i)\<lparr>owner := a, sold := True\<rparr>)
         \<and> owner (marketItemIdToMarketItem s' i) = a
         \<and> sold (marketItemIdToMarketItem s' i)
         \<and> unat (tokensSoldCounter s') = unat (tokensSoldCounter s) + 1
         \<and> interactions s' = interactions s @
              [EtherTransfer (seller (marketItemIdToMarketItem s i))
                 (price (marketItemIdToMarketItem s i)),
               TokenTransferFrom c (thisAddress s) a (tokenId (marketItemIdToMarketItem s i)),
               EtherTransfer (marketOwner s) (listingFee s),
               Emit (MarketItemSold i c (tokenId (marketItemIdToMarketItem s i))
                       (seller (marketItemIdToMarketItem s i)) a
                       (price (marketItemIdToMarketItem s i)))]
         \<and> balance s' + unat (listingFee s) =
             balance s + etherForced e c (thisAddress s) a (tokenId (marketItemIdToMarketItem s i))"
proof -
  from assms have ok: "v = price (marketItemIdToMarketItem s i)" "tokensSoldCounter s \<noteq> - 1"
      "unat (listingFee s)
         \<le> balance s + etherForced e c (thisAddress s) a (tokenId (marketItemIdToMarketItem s i))"
    and s': "s' = s\<lparr>tokensSoldCounter := tokensSoldCounter s + 1,
              marketItemIdToMarketItem := (marketItemIdToMarketItem s)
                (i := (marketItemIdToMarketItem s i)\<lparr>owner := a, sold := True\<rparr>),
              balance := balance s
                + etherForced e c (thisAddress s) a (tokenId (marketItemIdToMarketItem s i))
                - unat (listingFee s),
              interactions := interactions s @
                [EtherTransfer (seller (marketItemIdToMarketItem s i)) v,
                 TokenTransferFrom c (thisAddress s) a (tokenId (marketItemIdToMarketItem s i)),
                 EtherTransfer (marketOwner s) (listingFee s),
                 Emit (MarketItemSold i c (tokenId (marketItemIdToMarketItem s i))
                         (seller (marketItemIdToMarketItem s i)) a v)]\<rparr>"
    by (simp_all add: createMarketSale_Inr)
  have "unat (tokensSoldCounter s') = unat (tokensSoldCounter s) + 1"
    using ok(2) by (simp add: s' unat_increment)
  moreover have "balance s' + unat (listingFee s) =
      balance s + etherForced e c (thisAddress s) a (tokenId (marketItemIdToMarketItem s i))"
    using ok(3) by (simp add: s')
  ultimately show ?thesis
    using ok(1) by (simp add: s')
qed

text \<open>Account 6 buys the first of the two listed items for its price of 100 wei.\<close>

theorem createMarketSale_effects_witness:
  "\<exists>s'. createMarketSale two_listings 6 100 (accepting 5) 7 1 = Inr s'
     \<and> marketItemIdToMarketItem s' 1 =
         \<lparr>marketItemId = 1, nftContractAddress = 7, tokenId = 9, creator = 5, seller = 3,
          owner = 6, price = 100, sold = True, canceled = False\<rparr>
     \<and> unat (tokensSoldCounter s') = 1
     \<and> drop 4 (interactions s') =
         [EtherTransfer 3 100, TokenTransferFrom 7 2 6 9, EtherTransfer 1 45000000000000000,
          Emit (MarketItemSold 1 7 9 3 6 100)]
     \<and> balance s' = 45000000000000000"
proof -
  obtain s' where sale: "createMarketSale two_listings 6 100 (accepting 5) 7 1 = Inr s'"
    by (simp add: createMarketSale_Inr two_listings_eq accepting_def)
  show ?thesis
    using createMarketSale_effects [OF sale] sale
    by (intro exI [of _ s']) (simp add: two_listings_eq accepting_def)
qed

section \<open>The latest item of a token\<close>

text \<open>
  Claim C7. In every state reached from deployment, \<^verbatim>\<open>getLatestMarketItemByTokenId\<close> returns
  an empty record and \<open>False\<close> when no stored item has the token id, and otherwise \<open>True\<close>
  and a stored item with this token id whose \<open>marketItemId\<close> is the highest among the stored
  items that have it.
\<close>

theorem getLatestMarketItemByTokenId_highest:
  fixes d t :: address and ops :: "operation list"
  defines "s \<equiv> run (constructor d t) ops"
  shows "if \<forall>item \<in> set (stored_items s). tokenId item \<noteq> tid
         then getLatestMarketItemByTokenId s tid = (emptyMarketItem, False)
         else \<exists>item \<in> set (stored_items s).
                getLatestMarketItemByTokenId s tid = (item, True)
                \<and> tokenId item = tid
                \<and> (\<forall>other \<in> set (stored_items s).
                      tokenId other = tid \<longrightarrow> marketItemId other \<le> marketItemId item)"
proof -
  let ?s = "s"
  let ?m = "marketItemIdToMarketItem ?s"
  let ?n = "marketItemIdCounter ?s"
  have "well_formed ?s"
    unfolding s_def by (intro well_formed_run well_formed_constructor)
  then have ids: "\<And>i. 0 < i \<Longrightarrow> i \<le> ?n \<Longrightarrow> marketItemId (?m i) = i"
    by (simp add: well_formed_def)
  from getLatest_loop_result [of ?m tid ?n] show ?thesis
  proof (elim disjE conjE exE)
    assume none: "getLatestMarketItemByTokenId_loop ?m tid ?n = (emptyMarketItem, False)"
      "\<forall>j. 0 < j \<and> j \<le> ?n \<longrightarrow> tokenId (?m j) \<noteq> tid"
    have "\<forall>item \<in> set (stored_items ?s). tokenId item \<noteq> tid"
    proof
      fix item assume "item \<in> set (stored_items ?s)"
      then obtain j where "0 < j" "j \<le> ?n" "item = ?m j"
        unfolding stored_items_iff by blast
      with none(2) show "tokenId item \<noteq> tid"
        by blast
    qed
    with none(1) show ?thesis
      by (simp add: getLatestMarketItemByTokenId_def)
  next
    fix k assume k: "0 < k" "k \<le> ?n" "tokenId (?m k) = tid"
      "\<forall>j. k < j \<and> j \<le> ?n \<longrightarrow> tokenId (?m j) \<noteq> tid"
      "getLatestMarketItemByTokenId_loop ?m tid ?n = (?m k, True)"
    have stored: "?m k \<in> set (stored_items ?s)"
      unfolding stored_items_iff using k(1,2) by blast
    have highest: "marketItemId other \<le> marketItemId (?m k)"
      if "other \<in> set (stored_items ?s)" "tokenId other = tid" for other
    proof -
      from that obtain j where j: "0 < j" "j \<le> ?n" "other = ?m j" "tokenId (?m j) = tid"
        unfolding stored_items_iff by blast
      with k(4) have "\<not> k < j"
        by blast
      then have "j \<le> k"
        by simp
      then show ?thesis
        using j k(1,2) by (simp add: ids)
    qed
    have "\<not> (\<forall>item \<in> set (stored_items ?s). tokenId item \<noteq> tid)"
      using stored k(3) by blast
    moreover have "getLatestMarketItemByTokenId ?s tid = (?m k, True)"
      using k(5) by (simp add: getLatestMarketItemByTokenId_def)
    ultimately show ?thesis
      using stored k(3) highest by (simp only: if_False) blast
  qed
qed

text \<open>
  After the relisting history the latest item of token 9 is the third, not the canceled
  first; token 12 was never listed.
\<close>

theorem getLatestMarketItemByTokenId_highest_witness:
  "getLatestMarketItemByTokenId (run (constructor 1 2) relisting_history) 9 =
     (\<lparr>marketItemId = 3, nftContractAddress = 7, tokenId = 9, creator = 5, seller = 3,
       owner = 0, price = 150, sold = False, canceled = False\<rparr>, True)
   \<and> getLatestMarketItemByTokenId (run (constructor 1 2) relisting_history) 12 =
     (emptyMarketItem, False)"
proof -
  have items: "stored_items (run (constructor 1 2) relisting_history) = 
   [\<lparr>marketItemId = 1, nftContractAddress = 7, tokenId = 9, creator = 5, seller = 3,
                owner = 3, price = 100, sold = False, canceled = True\<rparr>,
    \<lparr>marketItemId = 2, nftContractAddress = 7, tokenId = 10, creator = 5, seller = 4,
                owner = 0, price = 200, sold = False, canceled = False\<rparr>,
    \<lparr>marketItemId = 3, nftContractAddress = 7, tokenId = 9, creator = 5, seller = 3,
                owner = 0, price = 150, sold = False, canceled = False\<rparr>]"
    by (simp add: relisting_history_def example_defs call_defs stored_items_def market_ids_def
          upt_rec)
  show ?thesis
    using getLatestMarketItemByTokenId_highest [of 1 2 relisting_history 9]
      getLatestMarketItemByTokenId_highest [of 1 2 relisting_history 12]
    by (auto simp: items word_le_nat_alt)
qed

section \<open>The ids and the records over time\<close>

text \<open>
  Claim C8. In every state reached from deployment by any sequence of operations the
  \<open>marketItemId\<close>s of the stored items are \<open>1, 2, \<dots>\<close> up to the item counter, one per
  stored item. Whatever operations follow, the counter does not decrease, and every item
  stored before is still stored under its id with the fields of its creation, its sold flag
  still set if it was set, and its canceled flag still set if it was set.
\<close>

theorem ids_dense_records_kept:
  fixes d t :: address and ops later :: "operation list"
  defines "s \<equiv> run (constructor d t) ops"
  shows "map marketItemId (stored_items s) = market_ids (marketItemIdCounter s)
         \<and> length (stored_items s) = unat (marketItemIdCounter s)
         \<and> marketItemIdCounter s \<le> marketItemIdCounter (run s later)
         \<and> (\<forall>i. 0 < i \<and> i \<le> marketItemIdCounter s
                \<longrightarrow> kept_as (marketItemIdToMarketItem s i)
                      (marketItemIdToMarketItem (run s later) i))"
proof -
  have "well_formed s"
    unfolding s_def by (intro well_formed_run well_formed_constructor)
  then have "map marketItemId (stored_items s) = market_ids (marketItemIdCounter s)"
    by (rule stored_ids)
  moreover have "length (stored_items s) = unat (marketItemIdCounter s)"
    by (simp add: stored_items_def market_ids_def)
  moreover have "grows_to s (run s later)"
    by (rule grows_to_run)
  ultimately show ?thesis
    by (simp add: grows_to_def)
qed

text \<open>
  The example history after its two first listings: the sale, the cancellation and the third
  listing keep the two items and set one flag of each.
\<close>

theorem ids_dense_records_kept_witness:
  "map marketItemId (stored_items (run (constructor 1 2) (take 2 example_history))) = [1, 2]
   \<and> marketItemIdCounter (run (constructor 1 2) (take 2 example_history))
        \<le> marketItemIdCounter
            (run (run (constructor 1 2) (take 2 example_history)) (drop 2 example_history))
   \<and> kept_as (marketItemIdToMarketItem (run (constructor 1 2) (take 2 example_history)) 1)
        (marketItemIdToMarketItem
           (run (run (constructor 1 2) (take 2 example_history)) (drop 2 example_history)) 1)
   \<and> stored_items (run (run (constructor 1 2) (take 2 example_history)) (drop 2 example_history))
       = [\<lparr>marketItemId = 1, nftContractAddress = 7, tokenId = 9, creator = 5, seller = 3,
           owner = 6, price = 100, sold = True, canceled = False\<rparr>,
          \<lparr>marketItemId = 2, nftContractAddress = 7, tokenId = 10, creator = 5, seller = 4,
           owner = 4, price = 200, sold = False, canceled = True\<rparr>,
          \<lparr>marketItemId = 3, nftContractAddress = 7, tokenId = 11, creator = 5, seller = 3,
           owner = 0, price = 300, sold = False, canceled = False\<rparr>]"
proof -
  have "market_ids (marketItemIdCounter (run (constructor 1 2) (take 2 example_history))) = [1, 2]"
    by (simp add: example_history_def example_defs call_defs market_ids_def upt_rec)
  moreover have
    "stored_items (run (run (constructor 1 2) (take 2 example_history)) (drop 2 example_history))
       = [\<lparr>marketItemId = 1, nftContractAddress = 7, tokenId = 9, creator = 5, seller = 3,
           owner = 6, price = 100, sold = True, canceled = False\<rparr>,
          \<lparr>marketItemId = 2, nftContractAddress = 7, tokenId = 10, creator = 5, seller = 4,
           owner = 4, price = 200, sold = False, canceled = True\<rparr>,
          \<lparr>marketItemId = 3, nftContractAddress = 7, tokenId = 11, creator = 5, seller = 3,
           owner = 0, price = 300, sold = False, canceled = False\<rparr>]"
    by (simp add: example_history_def example_defs call_defs stored_items_def market_ids_def
          upt_rec)
  moreover have "(0 :: uint256) < 1
      \<and> 1 \<le> marketItemIdCounter (run (constructor 1 2) (take 2 example_history))"
    by (simp add: example_history_def example_defs call_defs)
  ultimately show ?thesis
    using ids_dense_records_kept [of 1 2 "take 2 example_history" "drop 2 example_history"]
    by simp
qed

section \<open>The items of a seller or an owner\<close>

text \<open>
  Claim C9. With a hash function that has no collisions (\<^verbatim>\<open>compareStrings\<close> compares hashes),
  \<^verbatim>\<open>fetchMarketItemsByAddressProperty\<close> reverts for every property string other than
  \<open>''seller''\<close> and \<open>''owner''\<close>. For these two, in every state reached from deployment, its
  first loop counts the stored items whose seller (respectively owner) is the caller, and it
  returns exactly these items, in ascending order of their \<open>marketItemId\<close>; the array is
  allocated with the count, so it has no other entry.
\<close>

theorem fetchMarketItemsByAddressProperty_filters:
  fixes keccak256 :: "string \<Rightarrow> 'h" and d t :: address and ops :: "operation list"
  assumes "inj keccak256"
  defines "s \<equiv> run (constructor d t) ops"
  shows "(p \<noteq> ''seller'' \<and> p \<noteq> ''owner''
            \<longrightarrow> fetchMarketItemsByAddressProperty keccak256 s a p = Inl (Revert parameter_message))
         \<and> (p = ''seller'' \<or> p = ''owner''
            \<longrightarrow> (\<exists>itemCount.
                   fetchMarketItemsByAddressProperty_count keccak256 (marketItemIdToMarketItem s)
                     p a (marketItemIdCounter s) 0 0 = Inr itemCount
                   \<and> unat itemCount = length (filter
                        (\<lambda>item. (if p = ''seller'' then seller item else owner item) = a)
                        (stored_items s)))
              \<and> fetchMarketItemsByAddressProperty keccak256 s a p =
                  Inr (filter (\<lambda>item. (if p = ''seller'' then seller item else owner item) = a)
                         (stored_items s))
              \<and> sorted_wrt (<) (map marketItemId
                  (filter (\<lambda>item. (if p = ''seller'' then seller item else owner item) = a)
                     (stored_items s))))"
proof -
  have compare: "compareStrings keccak256 x y \<longleftrightarrow> x = y" for x y
    using assms(1) by (auto simp: compareStrings_def dest: injD)
  let ?matches = "filter (\<lambda>item. (if p = ''seller'' then seller item else owner item) = a)
                    (stored_items s)"
  have rejected: "fetchMarketItemsByAddressProperty keccak256 s a p = Inl (Revert parameter_message)"
    if "p \<noteq> ''seller'' \<and> p \<noteq> ''owner''"
    using that by (simp add: fetchMarketItemsByAddressProperty_def compare)
  have accepted: "(\<exists>itemCount.
                   fetchMarketItemsByAddressProperty_count keccak256 (marketItemIdToMarketItem s)
                     p a (marketItemIdCounter s) 0 0 = Inr itemCount
                   \<and> unat itemCount = length ?matches)
              \<and> fetchMarketItemsByAddressProperty keccak256 s a p = Inr ?matches
              \<and> sorted_wrt (<) (map marketItemId ?matches)"
    if "p = ''seller'' \<or> p = ''owner''"
  proof -
    from that have ok: "compareStrings keccak256 p ''seller'' \<or> compareStrings keccak256 p ''owner''"
      by (simp add: compare)
    from count_loop_counts [OF ok, of 0 0 "marketItemIdToMarketItem s" a "marketItemIdCounter s"]
    obtain itemCount where count:
      "fetchMarketItemsByAddressProperty_count keccak256 (marketItemIdToMarketItem s)
         p a (marketItemIdCounter s) 0 0 = Inr itemCount"
      "unat itemCount = length ?matches"
      by (auto simp: compare stored_items_def)
    have "fetchMarketItemsByAddressProperty_fill keccak256 (marketItemIdToMarketItem s)
            p a (marketItemIdCounter s) 0 0 (replicate (unat itemCount) emptyMarketItem)
          = Inr ?matches"
      using fill_loop_fills [OF ok, of 0 a "marketItemIdToMarketItem s" 0 "marketItemIdCounter s"
          "replicate (unat itemCount) emptyMarketItem" itemCount] count(2)
      by (simp add: compare stored_items_def)
    then have "fetchMarketItemsByAddressProperty keccak256 s a p = Inr ?matches"
      using ok count(1) by (simp add: fetchMarketItemsByAddressProperty_def)
    moreover have "well_formed s"
      unfolding s_def by (intro well_formed_run well_formed_constructor)
    then have "sorted_wrt (<) (map marketItemId ?matches)"
      by (rule sorted_filter_ids)
    ultimately show ?thesis
      using count by blast
  qed
  from rejected accepted show ?thesis
    by blast
qed

text \<open>
  In the example history account 3 is the seller of the items 1 and 3, and account 6 the owner
  of item 1; the hash is the identity.
\<close>

theorem fetchMarketItemsByAddressProperty_filters_witness:
  "inj (\<lambda>x :: string. x)
   \<and> fetchMarketItemsByAddressProperty (\<lambda>x. x) (run (constructor 1 2) example_history) 3 ''buyer''
       = Inl (Revert parameter_message)
   \<and> fetchMarketItemsByAddressProperty (\<lambda>x. x) (run (constructor 1 2) example_history) 3 ''seller''
       = Inr [\<lparr>marketItemId = 1, nftContractAddress = 7, tokenId = 9, creator = 5, seller = 3,
               owner = 6, price = 100, sold = True, canceled = False\<rparr>,
              \<lparr>marketItemId = 3, nftContractAddress = 7, tokenId = 11, creator = 5, seller = 3,
               owner = 0, price = 300, sold = False, canceled = False\<rparr>]
   \<and> fetchMarketItemsByAddressProperty (\<lambda>x. x) (run (constructor 1 2) example_history) 6 ''owner''
       = Inr [\<lparr>marketItemId = 1, nftContractAddress = 7, tokenId = 9, creator = 5, seller = 3,
               owner = 6, price = 100, sold = True, canceled = False\<rparr>]"
proof -
  have inj: "inj (\<lambda>x :: string. x)"
    by simp
  show ?thesis
    using inj
      fetchMarketItemsByAddressProperty_filters [OF inj, of "''buyer''" 1 2 example_history 3]
      fetchMarketItemsByAddressProperty_filters [OF inj, of "''seller''" 1 2 example_history 3]
      fetchMarketItemsByAddressProperty_filters [OF inj, of "''owner''" 1 2 example_history 6]
    by (simp add: example_items)
qed

section \<open>When a sale is rejected\<close>

text \<open>
  Claim C2 says that \<^verbatim>\<open>createMarketSale\<close> rejects if and only if the payment differs from the
  stored price, so that a second sale of a sold item at its price succeeds. It does not on
  the ledger that has had one listing and its sale: the listing fee was paid out with the
  first sale, the balance is 0, and a second sale at the price, with every external call
  accepted and no ether forced in, reverts in the transfer of the fee.
\<close>

theorem createMarketSale_second_sale_counterexample:
  "sold (marketItemIdToMarketItem sold_out 1)
   \<and> price (marketItemIdToMarketItem sold_out 1) = 100
   \<and> createMarketSale sold_out 8 100 (accepting 5) 7 1 = Inl ExternalCallReverted"
  by (simp add: sold_out_eq accepting_def call_defs)

text \<open>
  Claim C2, amended. \<^verbatim>\<open>createMarketSale\<close> rejects, with no state change, if and only if the
  payment differs from the stored price, or the seller refuses the payment, or the collection
  given as argument rejects the token transfer, or the sold counter is \<open>2^256 - 1\<close>, or the
  contract's balance before the call together with the ether that the collection's
  \<^verbatim>\<open>transferFrom\<close> forced into the contract is below the listing fee, or the fee beneficiary
  refuses the fee. None of these conditions looks at the sold or canceled flag or compares the
  caller with the seller: a sale of an already sold item at its price, under the remaining
  conditions, succeeds, makes the caller the owner, counts one more sale and pays the stored
  seller again.
\<close>

theorem createMarketSale_rejects_iff:
  "((\<exists>err. createMarketSale s a v e c i = Inl err) \<longleftrightarrow>
       v \<noteq> price (marketItemIdToMarketItem s i)
       \<or> \<not> acceptsEther e (seller (marketItemIdToMarketItem s i)) v
       \<or> \<not> transferFrom e c (thisAddress s) a (tokenId (marketItemIdToMarketItem s i))
       \<or> tokensSoldCounter s = - 1
       \<or> balance s + etherForced e c (thisAddress s) a (tokenId (marketItemIdToMarketItem s i))
            < unat (listingFee s)
       \<or> \<not> acceptsEther e (marketOwner s) (listingFee s))
   \<and> ((\<exists>err. createMarketSale s a v e c i = Inl err)
        \<longrightarrow> transact s (CreateMarketSale a v e c i) = s)
   \<and> (sold (marketItemIdToMarketItem s i)
        \<and> v = price (marketItemIdToMarketItem s i)
        \<and> acceptsEther e (seller (marketItemIdToMarketItem s i)) v
        \<and> transferFrom e c (thisAddress s) a (tokenId (marketItemIdToMarketItem s i))
        \<and> tokensSoldCounter s \<noteq> - 1
        \<and> unat (listingFee s)
            \<le> balance s + etherForced e c (thisAddress s) a (tokenId (marketItemIdToMarketItem s i))
        \<and> acceptsEther e (marketOwner s) (listingFee s)
        \<longrightarrow> (\<exists>s'. createMarketSale s a v e c i = Inr s'
               \<and> owner (marketItemIdToMarketItem s' i) = a
               \<and> unat (tokensSoldCounter s') = unat (tokensSoldCounter s) + 1
               \<and> interactions s' = interactions s @
                    [EtherTransfer (seller (marketItemIdToMarketItem s i))
                       (price (marketItemIdToMarketItem s i)),
                     TokenTransferFrom c (thisAddress s) a
                       (tokenId (marketItemIdToMarketItem s i)),
                     EtherTransfer (marketOwner s) (listingFee s),
                     Emit (MarketItemSold i c (tokenId (marketItemIdToMarketItem s i))
                             (seller (marketItemIdToMarketItem s i)) a
                             (price (marketItemIdToMarketItem s i)))]))"
proof (intro conjI impI)
  show "(\<exists>err. createMarketSale s a v e c i = Inl err) \<longleftrightarrow>
       v \<noteq> price (marketItemIdToMarketItem s i)
       \<or> \<not> acceptsEther e (seller (marketItemIdToMarketItem s i)) v
       \<or> \<not> transferFrom e c (thisAddress s) a (tokenId (marketItemIdToMarketItem s i))
       \<or> tokensSoldCounter s = - 1
       \<or> balance s + etherForced e c (thisAddress s) a (tokenId (marketItemIdToMarketItem s i))
            < unat (listingFee s)
       \<or> \<not> acceptsEther e (marketOwner s) (listingFee s)"
    by (rule createMarketSale_Inl)
next
  assume "\<exists>err. createMarketSale s a v e c i = Inl err"
  then show "transact s (CreateMarketSale a v e c i) = s"
    by (auto simp: transact_def)
next
  assume ok: "sold (marketItemIdToMarketItem s i)
        \<and> v = price (marketItemIdToMarketItem s i)
        \<and> acceptsEther e (seller (marketItemIdToMarketItem s i)) v
        \<and> transferFrom e c (thisAddress s) a (tokenId (marketItemIdToMarketItem s i))
        \<and> tokensSoldCounter s \<noteq> - 1
        \<and> unat (listingFee s)
            \<le> balance s + etherForced e c (thisAddress s) a (tokenId (marketItemIdToMarketItem s i))
        \<and> acceptsEther e (marketOwner s) (listingFee s)"
  let ?s' = "s\<lparr>tokensSoldCounter := tokensSoldCounter s + 1,
              marketItemIdToMarketItem := (marketItemIdToMarketItem s)
                (i := (marketItemIdToMarketItem s i)\<lparr>owner := a, sold := True\<rparr>),
              balance := balance s
                + etherForced e c (thisAddress s) a (tokenId (marketItemIdToMarketItem s i))
                - unat (listingFee s),
              interactions := interactions s @
                [EtherTransfer (seller (marketItemIdToMarketItem s i)) v,
                 TokenTransferFrom c (thisAddress s) a (tokenId (marketItemIdToMarketItem s i)),
                 EtherTransfer (marketOwner s) (listingFee s),
                 Emit (MarketItemSold i c (tokenId (marketItemIdToMarketItem s i))
                         (seller (marketItemIdToMarketItem s i)) a v)]\<rparr>"
  from ok have v: "v = price (marketItemIdToMarketItem s i)"
    and rest: "acceptsEther e (seller (marketItemIdToMarketItem s i)) v"
      "transferFrom e c (thisAddress s) a (tokenId (marketItemIdToMarketItem s i))"
      "tokensSoldCounter s \<noteq> - 1"
      "unat (listingFee s)
         \<le> balance s + etherForced e c (thisAddress s) a (tokenId (marketItemIdToMarketItem s i))"
      "acceptsEther e (marketOwner s) (listingFee s)"
    by blast+
  have "createMarketSale s a v e c i = Inr ?s'"
    unfolding createMarketSale_Inr using v rest by blast
  moreover from rest(3) have "unat (tokensSoldCounter ?s') = unat (tokensSoldCounter s) + 1"
    by (simp add: unat_increment)
  ultimately show "\<exists>s'. createMarketSale s a v e c i = Inr s'
               \<and> owner (marketItemIdToMarketItem s' i) = a
               \<and> unat (tokensSoldCounter s') = unat (tokensSoldCounter s) + 1
               \<and> interactions s' = interactions s @
                    [EtherTransfer (seller (marketItemIdToMarketItem s i))
                       (price (marketItemIdToMarketItem s i)),
                     TokenTransferFrom c (thisAddress s) a
                       (tokenId (marketItemIdToMarketItem s i)),
                     EtherTransfer (marketOwner s) (listingFee s),
                     Emit (MarketItemSold i c (tokenId (marketItemIdToMarketItem s i))
                             (seller (marketItemIdToMarketItem s i)) a
                             (price (marketItemIdToMarketItem s i)))]"
    using v by (intro exI [of _ ?s']) simp
qed

text \<open>
  With a second listing the contract still holds one listing fee, and account 8 buys the
  sold item 1 again; on the ledger without that fee the same call is rejected, unless the
  collection forces the fee in while it transfers; a payment of 99 wei for the price of 100
  is rejected.
\<close>

theorem createMarketSale_rejects_iff_witness:
  "sold (marketItemIdToMarketItem one_sold 1)
   \<and> (\<exists>s'. createMarketSale one_sold 8 100 (accepting 5) 7 1 = Inr s'
          \<and> owner (marketItemIdToMarketItem s' 1) = 8
          \<and> unat (tokensSoldCounter s') = 2
          \<and> drop 8 (interactions s') =
               [EtherTransfer 3 100, TokenTransferFrom 7 2 8 9, EtherTransfer 1 45000000000000000,
                Emit (MarketItemSold 1 7 9 3 8 100)])
   \<and> (\<exists>err. createMarketSale sold_out 8 100 (accepting 5) 7 1 = Inl err)
   \<and> transact sold_out (CreateMarketSale 8 100 (accepting 5) 7 1) = sold_out
   \<and> (\<exists>s'. createMarketSale sold_out 8 100 (feeding 5) 7 1 = Inr s'
          \<and> unat (tokensSoldCounter s') = 2)
   \<and> (\<exists>err. createMarketSale one_sold 8 99 (accepting 5) 7 1 = Inl err)
   \<and> transact one_sold (CreateMarketSale 8 99 (accepting 5) 7 1) = one_sold"
proof -
  note again = createMarketSale_rejects_iff [of one_sold 8 100 "accepting 5" 7 1]
  note broke = createMarketSale_rejects_iff [of sold_out 8 100 "accepting 5" 7 1]
  note short = createMarketSale_rejects_iff [of one_sold 8 99 "accepting 5" 7 1]
  have "\<exists>s'. createMarketSale one_sold 8 100 (accepting 5) 7 1 = Inr s'
          \<and> owner (marketItemIdToMarketItem s' 1) = 8
          \<and> unat (tokensSoldCounter s') = 2
          \<and> drop 8 (interactions s') =
               [EtherTransfer 3 100, TokenTransferFrom 7 2 8 9, EtherTransfer 1 45000000000000000,
                Emit (MarketItemSold 1 7 9 3 8 100)]"
    using again [THEN conjunct2, THEN conjunct2] by (auto simp: one_sold_eq accepting_def)
  moreover have "\<exists>s'. createMarketSale sold_out 8 100 (feeding 5) 7 1 = Inr s'
          \<and> unat (tokensSoldCounter s') = 2"
    using createMarketSale_rejects_iff [of sold_out 8 100 "feeding 5" 7 1,
        THEN conjunct2, THEN conjunct2]
    by (auto simp: sold_out_eq feeding_def)
  moreover have "\<exists>err. createMarketSale sold_out 8 100 (accepting 5) 7 1 = Inl err"
    using broke [THEN conjunct1] by (simp add: sold_out_eq accepting_def)
  moreover from this have "transact sold_out (CreateMarketSale 8 100 (accepting 5) 7 1) = sold_out"
    using broke [THEN conjunct2, THEN conjunct1] by blast
  moreover have "\<exists>err. createMarketSale one_sold 8 99 (accepting 5) 7 1 = Inl err"
    using short [THEN conjunct1] by (simp add: one_sold_eq)
  moreover from this have "transact one_sold (CreateMarketSale 8 99 (accepting 5) 7 1) = one_sold"
    using short [THEN conjunct2, THEN conjunct1] by blast
  moreover have "sold (marketItemIdToMarketItem one_sold 1)"
    by (simp add: one_sold_eq)
  ultimately show ?thesis
    by blast
qed

section \<open>Cancelling a listing\<close>

text \<open>
  Claim C6 says that \<^verbatim>\<open>cancelMarketItem\<close> rejects if and only if the item does not exist or
  the caller is not the seller. It also rejects when the collection rejects the transfer of
  the token from the ledger: so for item 1 after its sale, which exists and whose seller
  calls, with a collection that rejects the transfer of a token the ledger holds no more.
\<close>

theorem cancelMarketItem_rejected_counterexample:
  "tokenId (marketItemIdToMarketItem one_sold 1) \<noteq> 0
   \<and> seller (marketItemIdToMarketItem one_sold 1) = 3
   \<and> cancelMarketItem one_sold 3 (rejecting_transfers 5) 7 1 = Inl ExternalCallReverted"
  by (simp add: one_sold_eq rejecting_transfers_def call_defs)

text \<open>
  Claim C6, amended. In every state reached from deployment, \<^verbatim>\<open>cancelMarketItem\<close> rejects if
  and only if the stored token id of the item is zero (the probe for existence), or the caller
  is not the stored seller, or the collection given as argument rejects the transfer of the
  token from the ledger to the caller, or the canceled counter is \<open>2^256 - 1\<close>. When it
  succeeds the caller is the stored seller; the item's owner is the caller and its canceled
  flag is set; the canceled counter is one more than before; the one external call is the
  accepted transfer of the token from the ledger to the caller; and, the sender of a
  transaction not being the zero address, no array that \<^verbatim>\<open>fetchAvailableMarketItems\<close> returns
  afterwards has an item with this id.
\<close>

theorem cancelMarketItem_rejects_iff:
  fixes d t :: address and ops :: "operation list"
  defines "s \<equiv> run (constructor d t) ops"
  shows "((\<exists>err. cancelMarketItem s a e c i = Inl err) \<longleftrightarrow>
            tokenId (marketItemIdToMarketItem s i) = 0
            \<or> seller (marketItemIdToMarketItem s i) \<noteq> a
            \<or> \<not> transferFrom e c (thisAddress s) a (tokenId (marketItemIdToMarketItem s i))
            \<or> tokensCanceledCounter s = - 1)
         \<and> (\<forall>s'. cancelMarketItem s a e c i = Inr s' \<longrightarrow>
               a = seller (marketItemIdToMarketItem s i)
               \<and> owner (marketItemIdToMarketItem s' i) = a
               \<and> canceled (marketItemIdToMarketItem s' i)
               \<and> unat (tokensCanceledCounter s') = unat (tokensCanceledCounter s) + 1
               \<and> interactions s' = interactions s @
                    [TokenTransferFrom c (thisAddress s) a
                       (tokenId (marketItemIdToMarketItem s i)),
                     Emit (MarketItemCanceled i c (tokenId (marketItemIdToMarketItem s i)) a)]
               \<and> (a \<noteq> 0 \<longrightarrow>
                    (\<forall>items. fetchAvailableMarketItems s' = Inr items
                       \<longrightarrow> (\<forall>item \<in> set items. marketItemId item \<noteq> i))))"
proof (intro conjI allI impI ballI)
  show "(\<exists>err. cancelMarketItem s a e c i = Inl err) \<longleftrightarrow>
            tokenId (marketItemIdToMarketItem s i) = 0
            \<or> seller (marketItemIdToMarketItem s i) \<noteq> a
            \<or> \<not> transferFrom e c (thisAddress s) a (tokenId (marketItemIdToMarketItem s i))
            \<or> tokensCanceledCounter s = - 1"
    by (rule cancelMarketItem_Inl)
next
  fix s' assume "cancelMarketItem s a e c i = Inr s'"
  then have exists: "0 < tokenId (marketItemIdToMarketItem s i)"
    and seller: "seller (marketItemIdToMarketItem s i) = a"
    and not_max: "tokensCanceledCounter s \<noteq> - 1"
    and s': "s' = s\<lparr>tokensCanceledCounter := tokensCanceledCounter s + 1,
              marketItemIdToMarketItem := (marketItemIdToMarketItem s)
                (i := (marketItemIdToMarketItem s i)\<lparr>owner := a, canceled := True\<rparr>),
              balance := balance s
                + etherForced e c (thisAddress s) a (tokenId (marketItemIdToMarketItem s i)),
              interactions := interactions s @
                [TokenTransferFrom c (thisAddress s) a (tokenId (marketItemIdToMarketItem s i)),
                 Emit (MarketItemCanceled i c (tokenId (marketItemIdToMarketItem s i)) a)]\<rparr>"
    unfolding cancelMarketItem_Inr by blast+
  show "a = seller (marketItemIdToMarketItem s i)"
    using seller by simp
  show "owner (marketItemIdToMarketItem s' i) = a"
    by (simp add: s')
  show "canceled (marketItemIdToMarketItem s' i)"
    by (simp add: s')
  show "unat (tokensCanceledCounter s') = unat (tokensCanceledCounter s) + 1"
    using not_max by (simp add: s' unat_increment)
  show "interactions s' = interactions s @
          [TokenTransferFrom c (thisAddress s) a (tokenId (marketItemIdToMarketItem s i)),
           Emit (MarketItemCanceled i c (tokenId (marketItemIdToMarketItem s i)) a)]"
    by (simp add: s')
  fix items item
  assume sender: "a \<noteq> 0" and fetched: "fetchAvailableMarketItems s' = Inr items"
    and item: "item \<in> set items"
  have wf: "well_formed s"
    unfolding s_def by (intro well_formed_run well_formed_constructor)
  with exists have allocated: "0 < i \<and> i \<le> marketItemIdCounter s"
    unfolding well_formed_def by (metis word_less_def order_less_irrefl)
  from fetched obtain k where
    "fetchAvailableMarketItems_loop (marketItemIdToMarketItem s') (marketItemIdCounter s') 0 0
       (replicate k emptyMarketItem) = Inr items"
    by (auto simp: fetchAvailableMarketItems_def checked_sub_def Let_def split: if_splits)
  from fetchAvailableMarketItems_loop_members [OF this item]
  have "item = emptyMarketItem
        \<or> (\<exists>j. 0 < j \<and> j \<le> marketItemIdCounter s' \<and> item = marketItemIdToMarketItem s' j
               \<and> owner (marketItemIdToMarketItem s' j) = 0)"
    by (auto simp: set_market_ids)
  then show "marketItemId item \<noteq> i"
  proof (elim disjE exE conjE)
    assume "item = emptyMarketItem"
    with allocated show ?thesis
      by (auto simp: emptyMarketItem_def)
  next
    fix j assume j: "0 < j" "j \<le> marketItemIdCounter s'" "item = marketItemIdToMarketItem s' j"
      "owner (marketItemIdToMarketItem s' j) = 0"
    with sender have "j \<noteq> i"
      by (auto simp: s')
    moreover from this j have "item = marketItemIdToMarketItem s j" "j \<le> marketItemIdCounter s"
      by (simp_all add: s')
    moreover from this j(1) wf have "marketItemId (marketItemIdToMarketItem s j) = j"
      by (simp add: well_formed_def)
    ultimately show ?thesis
      by simp
  qed
qed

text \<open>
  On the ledger with the two listings account 4 cancels its item 2, after which item 1 alone
  is available; account 3 is not the seller of item 2, item 5 does not exist, and a
  collection that rejects the transfer makes the seller's call fail.
\<close>

theorem cancelMarketItem_rejects_iff_witness:
  "(\<exists>s'. cancelMarketItem two_listings 4 (accepting 5) 7 2 = Inr s'
       \<and> owner (marketItemIdToMarketItem s' 2) = 4
       \<and> canceled (marketItemIdToMarketItem s' 2)
       \<and> unat (tokensCanceledCounter s') = 1
       \<and> drop 4 (interactions s') =
            [TokenTransferFrom 7 2 4 10, Emit (MarketItemCanceled 2 7 10 4)]
       \<and> fetchAvailableMarketItems s' =
            Inr [\<lparr>marketItemId = 1, nftContractAddress = 7, tokenId = 9, creator = 5,
                  seller = 3, owner = 0, price = 100, sold = False, canceled = False\<rparr>])
   \<and> (\<exists>err. cancelMarketItem two_listings 3 (accepting 5) 7 2 = Inl err)
   \<and> (\<exists>err. cancelMarketItem two_listings 4 (accepting 5) 7 5 = Inl err)
   \<and> (\<exists>err. cancelMarketItem two_listings 4 (rejecting_transfers 5) 7 2 = Inl err)"
proof -
  note seller = cancelMarketItem_rejects_iff [of 1 2 "take 2 example_history" 4 "accepting 5" 7 2,
      folded two_listings_def]
  note other = cancelMarketItem_rejects_iff [of 1 2 "take 2 example_history" 3 "accepting 5" 7 2,
      folded two_listings_def]
  note absent = cancelMarketItem_rejects_iff [of 1 2 "take 2 example_history" 4 "accepting 5" 7 5,
      folded two_listings_def]
  note refused = cancelMarketItem_rejects_iff
      [of 1 2 "take 2 example_history" 4 "rejecting_transfers 5" 7 2, folded two_listings_def]
  have "\<not> (\<exists>err. cancelMarketItem two_listings 4 (accepting 5) 7 2 = Inl err)"
    using seller [THEN conjunct1] by (simp add: two_listings_eq accepting_def)
  then obtain s' where s': "cancelMarketItem two_listings 4 (accepting 5) 7 2 = Inr s'"
    by (cases "cancelMarketItem two_listings 4 (accepting 5) 7 2") auto
  have "fetchAvailableMarketItems s' =
            Inr [\<lparr>marketItemId = 1, nftContractAddress = 7, tokenId = 9, creator = 5,
                  seller = 3, owner = 0, price = 100, sold = False, canceled = False\<rparr>]"
    using s' unfolding cancelMarketItem_Inr
    by (simp add: two_listings_eq fetchAvailableMarketItems_def checked_sub_def
          fetchAvailableMarketItems_loop.simps)
  moreover have "owner (marketItemIdToMarketItem s' 2) = 4
       \<and> canceled (marketItemIdToMarketItem s' 2)
       \<and> unat (tokensCanceledCounter s') = 1
       \<and> drop 4 (interactions s') =
            [TokenTransferFrom 7 2 4 10, Emit (MarketItemCanceled 2 7 10 4)]"
    using seller [THEN conjunct2, rule_format, OF s'] by (simp add: two_listings_eq)
  moreover have "\<exists>err. cancelMarketItem two_listings 3 (accepting 5) 7 2 = Inl err"
    using other [THEN conjunct1] by (simp add: two_listings_eq)
  moreover have "\<exists>err. cancelMarketItem two_listings 4 (accepting 5) 7 5 = Inl err"
    using absent [THEN conjunct1] by (simp add: two_listings_eq emptyMarketItem_def)
  moreover have "\<exists>err. cancelMarketItem two_listings 4 (rejecting_transfers 5) 7 2 = Inl err"
    using refused [THEN conjunct1] by (simp add: two_listings_eq rejecting_transfers_def)
  ultimately show ?thesis
    using s' by blast
qed

section \<open>The sale of an item that was never listed\<close>

text \<open>
  Claim C10 says that, for every id that was never allocated, a call of
  \<^verbatim>\<open>createMarketSale\<close> with no payment marks the record sold and counts a sale. The call
  passes the payment check, but it does not always go through: on the ledger that has had one
  listing and its sale the balance is 0, and the call for the unallocated id 5, with every
  external call accepted and no ether forced in, reverts in the transfer of the fee and leaves
  the state as it was; and on the ledger with two listings it reverts when the collection
  rejects the transfer of token 0.
\<close>

theorem createMarketSale_phantom_counterexample:
  "\<not> (0 < (5 :: uint256) \<and> 5 \<le> marketItemIdCounter sold_out)
   \<and> price (marketItemIdToMarketItem sold_out 5) = 0
   \<and> createMarketSale sold_out 8 0 (accepting 5) 7 5 = Inl ExternalCallReverted
   \<and> transact sold_out (CreateMarketSale 8 0 (accepting 5) 7 5) = sold_out
   \<and> createMarketSale two_listings 8 0 (rejecting_transfers 5) 7 5 = Inl ExternalCallReverted"
  by (simp add: sold_out_eq two_listings_eq accepting_def rejecting_transfers_def call_defs
        transact_def emptyMarketItem_def word_le_nat_alt)

text \<open>
  Claim C10, amended. \<^verbatim>\<open>createMarketSale\<close> does not check that the item exists. In every
  state reached from deployment, the record under an id that was never allocated has the price
  0 (and the seller 0 and the token id 0); a call for this id with no payment is never
  rejected by the payment check, and it succeeds exactly when the rest of the call does: the
  zero address accepts a payment of 0, the collection given as argument accepts the transfer
  of token 0, the sold counter is below \<open>2^256 - 1\<close>, the contract's balance together with
  the ether forced in during that transfer covers the listing fee, and the fee beneficiary
  accepts it. A call that succeeds marks the record sold, makes the caller its owner and
  counts one more sale, while the item counter, the canceled counter and the stored items are
  as before. So after valid operations, where the counters accounted for the stored items, the
  item counter minus the sold counter minus the canceled counter is then one less than the
  number of stored items with the zero owner, and \<^verbatim>\<open>fetchAvailableMarketItems\<close> reverts, in a
  subtraction or at the first item beyond its array.
\<close>

theorem createMarketSale_phantom:
  fixes d t :: address and ops :: "operation list"
  defines "s \<equiv> run (constructor d t) ops"
  assumes phantom: "\<not> (0 < i \<and> i \<le> marketItemIdCounter s)"
  shows "price (marketItemIdToMarketItem s i) = 0
         \<and> seller (marketItemIdToMarketItem s i) = 0
         \<and> tokenId (marketItemIdToMarketItem s i) = 0
         \<and> createMarketSale s a 0 e c i
             \<noteq> Inl (Revert ''Please submit the asking price in order to continue'')
         \<and> ((\<exists>s'. createMarketSale s a 0 e c i = Inr s') \<longleftrightarrow>
               acceptsEther e 0 0 \<and> transferFrom e c (thisAddress s) a 0
               \<and> tokensSoldCounter s \<noteq> - 1
               \<and> unat (listingFee s) \<le> balance s + etherForced e c (thisAddress s) a 0
               \<and> acceptsEther e (marketOwner s) (listingFee s))
         \<and> (\<forall>s'. createMarketSale s a 0 e c i = Inr s' \<longrightarrow>
               sold (marketItemIdToMarketItem s' i)
               \<and> owner (marketItemIdToMarketItem s' i) = a
               \<and> unat (tokensSoldCounter s') = unat (tokensSoldCounter s) + 1
               \<and> marketItemIdCounter s' = marketItemIdCounter s
               \<and> tokensCanceledCounter s' = tokensCanceledCounter s
               \<and> stored_items s' = stored_items s
               \<and> (valid_sequence (constructor d t) ops \<longrightarrow>
                    int (unat (marketItemIdCounter s')) - int (unat (tokensSoldCounter s'))
                      - int (unat (tokensCanceledCounter s'))
                    = int (length (filter (\<lambda>item. owner item = 0) (stored_items s'))) - 1
                    \<and> (fetchAvailableMarketItems s' = Inl (Panic 17)
                         \<or> fetchAvailableMarketItems s' = Inl (Panic 50))))"
proof (intro conjI allI impI)
  let ?m = "marketItemIdToMarketItem s"
  have "well_formed s"
    unfolding s_def by (intro well_formed_run well_formed_constructor)
  with phantom have fields: "price (?m i) = 0" "seller (?m i) = 0" "tokenId (?m i) = 0"
    unfolding well_formed_def by (metis (full_types))+
  show "price (?m i) = 0" "seller (?m i) = 0" "tokenId (?m i) = 0"
    by (rule fields)+
  show "createMarketSale s a 0 e c i
          \<noteq> Inl (Revert ''Please submit the asking price in order to continue'')"
    using fields(1)
    by (simp add: createMarketSale_def Let_def receive_value_def transfer_def
          erc721_transferFrom_def increment_def split: sum.splits)
  show "(\<exists>s'. createMarketSale s a 0 e c i = Inr s') \<longleftrightarrow>
               acceptsEther e 0 0 \<and> transferFrom e c (thisAddress s) a 0
               \<and> tokensSoldCounter s \<noteq> - 1
               \<and> unat (listingFee s) \<le> balance s + etherForced e c (thisAddress s) a 0
               \<and> acceptsEther e (marketOwner s) (listingFee s)"
    unfolding createMarketSale_Inr using fields by auto
  fix s' assume "createMarketSale s a 0 e c i = Inr s'"
  then have not_max: "tokensSoldCounter s \<noteq> - 1"
    and s': "s' = s\<lparr>tokensSoldCounter := tokensSoldCounter s + 1,
              marketItemIdToMarketItem := ?m (i := (?m i)\<lparr>owner := a, sold := True\<rparr>),
              balance := balance s + etherForced e c (thisAddress s) a (tokenId (?m i))
                - unat (listingFee s),
              interactions := interactions s @
                [EtherTransfer (seller (?m i)) 0,
                 TokenTransferFrom c (thisAddress s) a (tokenId (?m i)),
                 EtherTransfer (marketOwner s) (listingFee s),
                 Emit (MarketItemSold i c (tokenId (?m i)) (seller (?m i)) a 0)]\<rparr>"
    unfolding createMarketSale_Inr by blast+
  have counters: "marketItemIdCounter s' = marketItemIdCounter s"
    "tokensSoldCounter s' = tokensSoldCounter s + 1"
    "tokensCanceledCounter s' = tokensCanceledCounter s"
    by (simp_all add: s')
  have sold': "unat (tokensSoldCounter s + 1) = unat (tokensSoldCounter s) + 1"
    using not_max by (simp add: unat_increment)
  have items: "stored_items s' = stored_items s"
    using stored_items_update_outside [OF phantom] by (simp add: s' stored_items_def)
  show "sold (marketItemIdToMarketItem s' i)"
    by (simp add: s')
  show "owner (marketItemIdToMarketItem s' i) = a"
    by (simp add: s')
  show "unat (tokensSoldCounter s') = unat (tokensSoldCounter s) + 1"
    unfolding counters by (rule sold')
  show "marketItemIdCounter s' = marketItemIdCounter s"
    by (rule counters)
  show "tokensCanceledCounter s' = tokensCanceledCounter s"
    by (rule counters)
  show "stored_items s' = stored_items s"
    by (rule items)
  assume valid: "valid_sequence (constructor d t) ops"
  have acc: "accounted s"
    unfolding s_def using valid by (intro accounted_run accounted_constructor)
  let ?avail = "length (filter (\<lambda>item. owner item = 0) (stored_items s))"
  from acc have count: "unat (tokensSoldCounter s) + unat (tokensCanceledCounter s) + ?avail
                          = unat (marketItemIdCounter s)"
    by (simp add: accounted_def available_items_def)
  show "int (unat (marketItemIdCounter s')) - int (unat (tokensSoldCounter s'))
          - int (unat (tokensCanceledCounter s'))
        = int (length (filter (\<lambda>item. owner item = 0) (stored_items s'))) - 1"
    unfolding counters items using count sold' by linarith
  show "fetchAvailableMarketItems s' = Inl (Panic 17)
        \<or> fetchAvailableMarketItems s' = Inl (Panic 50)"
  proof (cases "tokensSoldCounter s' \<le> marketItemIdCounter s'
                \<and> tokensCanceledCounter s' \<le> marketItemIdCounter s' - tokensSoldCounter s'")
    case False
    then show ?thesis
      by (auto simp: fetchAvailableMarketItems_def checked_sub_def Let_def)
  next
    case True
    let ?size = "marketItemIdCounter s' - tokensSoldCounter s' - tokensCanceledCounter s'"
    from True have sub1: "unat (marketItemIdCounter s' - tokensSoldCounter s')
                            = unat (marketItemIdCounter s') - unat (tokensSoldCounter s')"
      by (intro unat_sub) simp
    from True have sub2: "unat ?size = unat (marketItemIdCounter s' - tokensSoldCounter s')
                            - unat (tokensCanceledCounter s')"
      by (intro unat_sub) simp
    from True have "unat (tokensSoldCounter s') \<le> unat (marketItemIdCounter s')"
      "unat (tokensCanceledCounter s')
         \<le> unat (marketItemIdCounter s' - tokensSoldCounter s')"
      by (simp_all add: word_le_nat_alt)
    with count sold' sub1 sub2 have size: "unat ?size < ?avail"
      unfolding counters by linarith
    have "map (marketItemIdToMarketItem s')
            (drop (unat (0 :: uint256)) (market_ids (marketItemIdCounter s'))) = stored_items s"
      using items by (simp add: stored_items_def)
    with size have "length (replicate (unat ?size) emptyMarketItem)
        < unat (0 :: uint256) + length (filter (\<lambda>item. owner item = 0)
            (map (marketItemIdToMarketItem s')
               (drop (unat (0 :: uint256)) (market_ids (marketItemIdCounter s')))))"
      by (simp only: length_replicate unat_0 add_0)
    then have "fetchAvailableMarketItems_loop (marketItemIdToMarketItem s')
            (marketItemIdCounter s') 0 0 (replicate (unat ?size) emptyMarketItem)
          = Inl (Panic 50)"
      by (rule fetchAvailableMarketItems_loop_overflows [where k = ?size]) simp_all
    with True show ?thesis
      by (simp add: fetchAvailableMarketItems_def checked_sub_def Let_def)
  qed
qed

text \<open>
  On the ledger with the two listings account 8 buys the item 5 that does not exist, for
  nothing: the counters then give 2 - 1 - 0 = 1 for the 2 available items, and the query
  reverts at the second.
\<close>

theorem createMarketSale_phantom_witness:
  "valid_sequence (constructor 1 2) (take 2 example_history)
   \<and> \<not> (0 < (5 :: uint256) \<and> 5 \<le> marketItemIdCounter two_listings)
   \<and> unat (listingFee two_listings) \<le> balance two_listings
   \<and> price (marketItemIdToMarketItem two_listings 5) = 0
   \<and> (\<exists>s'. createMarketSale two_listings 8 0 (accepting 5) 7 5 = Inr s'
          \<and> sold (marketItemIdToMarketItem s' 5)
          \<and> owner (marketItemIdToMarketItem s' 5) = 8
          \<and> unat (marketItemIdCounter s') = 2
          \<and> unat (tokensSoldCounter s') = 1
          \<and> unat (tokensCanceledCounter s') = 0
          \<and> length (filter (\<lambda>item. owner item = 0) (stored_items s')) = 2
          \<and> fetchAvailableMarketItems s' = Inl (Panic 50))"
proof -
  have valid: "valid_sequence (constructor 1 2) (take 2 example_history)"
    by (simp add: example_history_def example_defs call_defs)
  have phantom: "\<not> (0 < (5 :: uint256) \<and> 5 \<le> marketItemIdCounter two_listings)"
    by (simp add: two_listings_eq word_le_nat_alt)
  have funded: "unat (listingFee two_listings) \<le> balance two_listings"
    by (simp add: two_listings_eq)
  note sale = createMarketSale_phantom
    [where d = 1 and t = 2 and ops = "take 2 example_history" and i = 5 and a = 8
       and e = "accepting 5" and c = 7, folded two_listings_def, OF phantom]
  from sale have price: "price (marketItemIdToMarketItem two_listings 5) = 0"
    by blast
  from sale have "(\<exists>s'. createMarketSale two_listings 8 0 (accepting 5) 7 5 = Inr s') \<longleftrightarrow>
      acceptsEther (accepting 5) 0 0 \<and> transferFrom (accepting 5) 7 (thisAddress two_listings) 8 0
      \<and> tokensSoldCounter two_listings \<noteq> - 1
      \<and> unat (listingFee two_listings)
          \<le> balance two_listings + etherForced (accepting 5) 7 (thisAddress two_listings) 8 0
      \<and> acceptsEther (accepting 5) (marketOwner two_listings) (listingFee two_listings)"
    by blast
  then have "\<exists>s'. createMarketSale two_listings 8 0 (accepting 5) 7 5 = Inr s'"
    by (simp add: two_listings_eq accepting_def)
  then obtain s' where s': "createMarketSale two_listings 8 0 (accepting 5) 7 5 = Inr s'"
    by blast
  from sale have "\<forall>s'. createMarketSale two_listings 8 0 (accepting 5) 7 5 = Inr s' \<longrightarrow>
               sold (marketItemIdToMarketItem s' 5)
               \<and> owner (marketItemIdToMarketItem s' 5) = 8
               \<and> unat (tokensSoldCounter s') = unat (tokensSoldCounter two_listings) + 1
               \<and> marketItemIdCounter s' = marketItemIdCounter two_listings
               \<and> tokensCanceledCounter s' = tokensCanceledCounter two_listings
               \<and> stored_items s' = stored_items two_listings
               \<and> (valid_sequence (constructor 1 2) (take 2 example_history) \<longrightarrow>
                    int (unat (marketItemIdCounter s')) - int (unat (tokensSoldCounter s'))
                      - int (unat (tokensCanceledCounter s'))
                    = int (length (filter (\<lambda>item. owner item = 0) (stored_items s'))) - 1
                    \<and> (fetchAvailableMarketItems s' = Inl (Panic 17)
                         \<or> fetchAvailableMarketItems s' = Inl (Panic 50)))"
    by blast
  with s' have flags: "sold (marketItemIdToMarketItem s' 5)"
      "owner (marketItemIdToMarketItem s' 5) = 8"
    and counters: "unat (tokensSoldCounter s') = unat (tokensSoldCounter two_listings) + 1"
      "marketItemIdCounter s' = marketItemIdCounter two_listings"
      "tokensCanceledCounter s' = tokensCanceledCounter two_listings"
    and items: "stored_items s' = stored_items two_listings"
    by blast+
  have "unat (marketItemIdCounter two_listings) = 2" "unat (tokensSoldCounter two_listings) = 0"
    "unat (tokensCanceledCounter two_listings) = 0"
    by (simp_all add: two_listings_eq)
  with counters have facts: "unat (marketItemIdCounter s') = 2" "unat (tokensSoldCounter s') = 1"
    "unat (tokensCanceledCounter s') = 0"
    by simp_all
  have "length (filter (\<lambda>item. owner item = 0) (stored_items two_listings)) = 2"
    by (simp add: two_listings_eq stored_items_def market_ids_def upt_rec)
  with items have avail: "length (filter (\<lambda>item. owner item = 0) (stored_items s')) = 2"
    by simp
  have "fetchAvailableMarketItems s' = Inl (Panic 50)"
    using s' unfolding createMarketSale_Inr
    by (simp add: two_listings_eq fetchAvailableMarketItems_def checked_sub_def
          fetchAvailableMarketItems_loop.simps word_le_nat_alt)
  with valid phantom funded price s' flags facts avail show ?thesis
    by blast
qed

end
